theory Spec2Isabelle
  imports Main "HOL-Library.Char_ord" "HOL-Library.List_Lexorder" "HOL-Library.Multiset"
begin

section \<open>Data model\<close>

subsection \<open>Wire configuration\<close>

text \<open>
  The wire types are those of \<^verbatim>\<open>k8s.io/apiserver/pkg/apis/config/v1\<close>. A provider entry
  is a struct of pointers, several of which may be set at once; a pointer is an option.
  \<^verbatim>\<open>AESConfiguration\<close> and \<^verbatim>\<open>SecretboxConfiguration\<close> have the single field
  \<^verbatim>\<open>Keys\<close>, so each is the list of its keys. The \<^verbatim>\<open>KMS\<close> pointer is never read by
  config.go; only its presence is kept.
\<close>

record Key =
  Name :: string
  Secret :: string

record ProviderConfiguration =
  AESGCM :: "Key list option"
  AESCBC :: "Key list option"
  Secretbox :: "Key list option"
  Identity :: "unit option"
  KMS :: "unit option"

record ResourceConfiguration =
  Resources :: "string list"
  Providers :: "ProviderConfiguration list"

text \<open>
  \<^verbatim>\<open>EncryptionConfiguration\<close> has the single field \<^verbatim>\<open>Resources\<close>; the pointer to
  it that \<^verbatim>\<open>ToEncryptionState\<close> receives may be nil.
\<close>

type_synonym EncryptionConfiguration = "ResourceConfiguration list"

subsection \<open>Group resources\<close>

text \<open>
  \<^verbatim>\<open>schema.GroupResource\<close> of \<^verbatim>\<open>k8s.io/apimachinery\<close>, with its \<^verbatim>\<open>String\<close>
  method (the resource alone when the group is empty, otherwise resource, a dot, group) and
  \<^verbatim>\<open>ParseGroupResource\<close> (split at the first dot, if there is one).
\<close>

record GroupResource =
  Group :: string
  Resource :: string

definition GroupResource_String :: "GroupResource \<Rightarrow> string" where
  "GroupResource_String gr =
     (if Group gr = [] then Resource gr else Resource gr @ ''.'' @ Group gr)"

definition ParseGroupResource :: "string \<Rightarrow> GroupResource" where
  "ParseGroupResource gr =
     (if CHR ''.'' \<in> set gr
      then \<lparr>Group = drop 1 (dropWhile (\<lambda>c. c \<noteq> CHR ''.'') gr),
            Resource = takeWhile (\<lambda>c. c \<noteq> CHR ''.'') gr\<rparr>
      else \<lparr>Group = [], Resource = gr\<rparr>)"

subsection \<open>Key state\<close>

text \<open>
  Modelled from the spec: the package \<^verbatim>\<open>state\<close> (the types \<^verbatim>\<open>Mode\<close>,
  \<^verbatim>\<open>KeyState\<close>, \<^verbatim>\<open>GroupResourceState\<close> and the helpers \<^verbatim>\<open>HasWriteKey\<close>,
  \<^verbatim>\<open>EqualKeyAndEqualID\<close>, \<^verbatim>\<open>SortRecentFirst\<close>) is not part of the sources at hand.

  A mode is one of the three tags \<^verbatim>\<open>AESCBC\<close>, \<^verbatim>\<open>SecretBox\<close>, \<^verbatim>\<open>Identity\<close>.
  config.go prints a mode with \<^verbatim>\<open>%s\<close> and has a branch for a mode that is none of the
  three, so a mode may hold any other string too: \<open>OtherMode s\<close>, and the zero value of
  the type is \<open>OtherMode []\<close>.
\<close>

datatype Mode = state_AESCBC | state_SecretBox | state_Identity | OtherMode string

record KeyState =
  Key :: Key
  Mode :: Mode
  Backed :: bool

record GroupResourceState =
  WriteKey :: KeyState
  ReadKeys :: "KeyState list"

definition zeroKeyState :: KeyState where
  "zeroKeyState = \<lparr>Key = \<lparr>Name = [], Secret = []\<rparr>, Mode = OtherMode [], Backed = False\<rparr>"

text \<open>
  Modelled from the spec: \<^verbatim>\<open>HasWriteKey()\<close> is true iff \<^verbatim>\<open>WriteKey\<close> is a non-zero
  \<^verbatim>\<open>KeyState\<close>.
\<close>

definition HasWriteKey :: "GroupResourceState \<Rightarrow> bool" where
  "HasWriteKey g = (WriteKey g \<noteq> zeroKeyState)"

text \<open>
  Modelled from the spec: two key states are the same key iff their key identifiers and
  secret values match exactly, regardless of \<^verbatim>\<open>Backed\<close> or \<^verbatim>\<open>Mode\<close>.
\<close>

definition EqualKeyAndEqualID :: "KeyState \<Rightarrow> KeyState \<Rightarrow> bool" where
  "EqualKeyAndEqualID s1 s2 =
     (Name (Key s1) = Name (Key s2) \<and> Secret (Key s1) = Secret (Key s2))"

text \<open>
  Modelled from the spec: \<^verbatim>\<open>SortRecentFirst\<close> returns its argument sorted most recent
  first. The spec assumes that identifiers are orderable by recency and does not say how;
  the rank of an identifier is the parameter \<open>keyID\<close> (a larger rank is more recent).
  The spec does not say in which order keys of equal rank come out; here a key comes after
  the keys of its rank that follow it in the argument.
\<close>

fun insertRecent :: "(string \<Rightarrow> nat) \<Rightarrow> KeyState \<Rightarrow> KeyState list \<Rightarrow> KeyState list" where
  "insertRecent keyID k [] = [k]"
| "insertRecent keyID k (x # xs) =
     (if keyID (Name (Key x)) < keyID (Name (Key k)) then k # x # xs
      else x # insertRecent keyID k xs)"

definition SortRecentFirst :: "(string \<Rightarrow> nat) \<Rightarrow> KeyState list \<Rightarrow> KeyState list" where
  "SortRecentFirst keyID unsorted = foldr (insertRecent keyID) unsorted []"

subsection \<open>Failures and diagnostics\<close>

text \<open>
  The only run-time failure config.go can raise by itself is the index panic of
  \<^verbatim>\<open>providers[0]\<close> on an empty slice. The lines written through \<^verbatim>\<open>klog\<close> are
  collected in the order they are written, each with the arguments of its format string.
\<close>

datatype error = IndexOutOfRange

datatype logline =
    SkippingInvalidSecret string
  | SkippingInvalidEncryptionConfig "string list"
  | SkippingInvalidProvider nat string
  | SkippingKey string Mode

section \<open>Encoder: state to config\<close>

definition identityProvider :: ProviderConfiguration where
  "identityProvider =
     \<lparr>AESGCM = None, AESCBC = None, Secretbox = None, Identity = Some (), KMS = None\<rparr>"

definition aescbcProvider :: "Key \<Rightarrow> ProviderConfiguration" where
  "aescbcProvider k =
     \<lparr>AESGCM = None, AESCBC = Some [k], Secretbox = None, Identity = None, KMS = None\<rparr>"

definition secretboxProvider :: "Key \<Rightarrow> ProviderConfiguration" where
  "secretboxProvider k =
     \<lparr>AESGCM = None, AESCBC = None, Secretbox = Some [k], Identity = None, KMS = None\<rparr>"

definition aesgcmProvider :: "Key \<Rightarrow> ProviderConfiguration" where
  "aesgcmProvider k =
     \<lparr>AESGCM = Some [k], AESCBC = None, Secretbox = None, Identity = None, KMS = None\<rparr>"

text \<open>
  Lines 145 to 150 of config.go: the first key of the tail that equals the write key is
  cut out, and the loop stops there.
\<close>

fun filterWriteKey :: "KeyState \<Rightarrow> KeyState list \<Rightarrow> KeyState list" where
  "filterWriteKey w [] = []"
| "filterWriteKey w (k # ks) =
     (if EqualKeyAndEqualID k w then ks else k # filterWriteKey w ks)"

text \<open>The value of the variable \<^verbatim>\<open>allKeys\<close> when the loop of line 159 starts.\<close>

definition allKeys :: "GroupResourceState \<Rightarrow> KeyState list" where
  "allKeys desired =
     (if HasWriteKey desired
      then WriteKey desired # filterWriteKey (WriteKey desired) (ReadKeys desired)
      else ReadKeys desired)"

text \<open>
  The loop of lines 159 to 188 over \<^verbatim>\<open>allKeys\<close>, from index \<open>i\<close> on, threading
  \<^verbatim>\<open>providers\<close>, \<^verbatim>\<open>aesgcmProviders\<close> and the log.
\<close>

fun keysLoop :: "nat \<Rightarrow> KeyState list \<Rightarrow> ProviderConfiguration list \<Rightarrow>
    ProviderConfiguration list \<Rightarrow> logline list \<Rightarrow>
    ProviderConfiguration list \<times> ProviderConfiguration list \<times> logline list" where
  "keysLoop i [] providers aesgcmProviders lg = (providers, aesgcmProviders, lg)"
| "keysLoop i (key # keys) providers aesgcmProviders lg =
     (case Mode key of
        state_AESCBC \<Rightarrow>
          keysLoop (Suc i) keys (providers @ [aescbcProvider (Key key)]) aesgcmProviders lg
      | state_SecretBox \<Rightarrow>
          keysLoop (Suc i) keys (providers @ [secretboxProvider (Key key)]) aesgcmProviders lg
      | state_Identity \<Rightarrow>
          keysLoop (Suc i) keys
            (if i = 0 then providers @ [identityProvider] else providers)
            (aesgcmProviders @ [aesgcmProvider (Key key)]) lg
      | OtherMode m \<Rightarrow>
          keysLoop (Suc i) keys providers aesgcmProviders
            (lg @ [SkippingKey (Name (Key key)) (Mode key)]))"

definition stateToProviders ::
    "GroupResourceState \<Rightarrow> (error + ProviderConfiguration list) \<times> logline list" where
  "stateToProviders desired =
     (case keysLoop 0 (allKeys desired)
             (if HasWriteKey desired then [] else [identityProvider]) [] [] of
        (providers, aesgcmProviders, lg) \<Rightarrow>
          (case providers of
             [] \<Rightarrow> (Inl IndexOutOfRange, lg)
           | p # _ \<Rightarrow>
               (Inr ((if Identity p = None then providers @ [identityProvider]
                      else providers) @ aesgcmProviders), lg)))"

text \<open>
  The resource map is given as the list of its entries in the order the \<^verbatim>\<open>range\<close> of
  line 25 visits them, which Go leaves open: any order of the entries is a possible run.
  A panic of \<^verbatim>\<open>stateToProviders\<close> ends the call.
\<close>

fun resourceConfigsLoop :: "(GroupResource \<times> GroupResourceState) list \<Rightarrow>
    ResourceConfiguration list \<Rightarrow> logline list \<Rightarrow>
    (error + ResourceConfiguration list) \<times> logline list" where
  "resourceConfigsLoop [] resourceConfigs lg = (Inr resourceConfigs, lg)"
| "resourceConfigsLoop ((gr, grKeys) # rest) resourceConfigs lg =
     (case stateToProviders grKeys of
        (Inl e, lg') \<Rightarrow> (Inl e, lg @ lg')
      | (Inr ps, lg') \<Rightarrow>
          resourceConfigsLoop rest
            (resourceConfigs @ [\<lparr>Resources = [GroupResource_String gr], Providers = ps\<rparr>])
            (lg @ lg'))"

text \<open>
  \<^verbatim>\<open>sort.Slice\<close> by \<^verbatim>\<open>Resources[0]\<close> under Go's byte-wise string order, which is
  the lexicographic order of \<open>char list\<close>. Every entry built at line 26 names exactly one
  resource. \<^verbatim>\<open>sort.Slice\<close> leaves the order of entries with equal identifiers open; here
  they keep their order.
\<close>

definition FromEncryptionState :: "(GroupResource \<times> GroupResourceState) list \<Rightarrow>
    (error + EncryptionConfiguration) \<times> logline list" where
  "FromEncryptionState encryptionState =
     (case resourceConfigsLoop encryptionState [] [] of
        (Inl e, lg) \<Rightarrow> (Inl e, lg)
      | (Inr resourceConfigs, lg) \<Rightarrow>
          (Inr (sort_key (\<lambda>rc. hd (Resources rc)) resourceConfigs), lg))"

section \<open>Decoder: config to state\<close>

text \<open>
  The persisted key records are opaque here: \<open>'s\<close> is their type and the parameter
  \<open>toKeyState\<close> is the collaborator \<^verbatim>\<open>secrets.ToKeyState\<close>, which returns a key state or
  an error (its message). Lines 52 to 61.
\<close>

fun backedKeysLoop :: "('s \<Rightarrow> string + KeyState) \<Rightarrow> 's list \<Rightarrow> KeyState list \<Rightarrow>
    logline list \<Rightarrow> KeyState list \<times> logline list" where
  "backedKeysLoop toKeyState [] backedKeys lg = (backedKeys, lg)"
| "backedKeysLoop toKeyState (s # ss) backedKeys lg =
     (case toKeyState s of
        Inl err \<Rightarrow> backedKeysLoop toKeyState ss backedKeys (lg @ [SkippingInvalidSecret err])
      | Inr km \<Rightarrow> backedKeysLoop toKeyState ss (backedKeys @ [km\<lparr>Backed := True\<rparr>]) lg)"

text \<open>
  The switch of lines 81 to 107 either sets \<^verbatim>\<open>ks\<close> or continues with the next provider:
  silently for the identity provider, with a log line in the default case. The parameter
  \<open>idKey\<close> is the constant \<^verbatim>\<open>emptyStaticIdentityKey\<close>, whose value comes from the
  package \<^verbatim>\<open>crypto\<close>.
\<close>

datatype switch_result = Set KeyState | ContinueFake | ContinueInvalid

definition singleKey :: "Key list option \<Rightarrow> Key option" where
  "singleKey c = (case c of Some [k] \<Rightarrow> Some k | _ \<Rightarrow> None)"

definition switchProvider :: "string \<Rightarrow> ProviderConfiguration \<Rightarrow> switch_result" where
  "switchProvider idKey provider =
     (case singleKey (AESCBC provider) of
        Some k \<Rightarrow> Set \<lparr>Key = k, Mode = state_AESCBC, Backed = False\<rparr>
      | None \<Rightarrow>
     (case singleKey (Secretbox provider) of
        Some k \<Rightarrow> Set \<lparr>Key = k, Mode = state_SecretBox, Backed = False\<rparr>
      | None \<Rightarrow>
     (if Identity provider \<noteq> None then ContinueFake
      else
     (case singleKey (AESGCM provider) of
        Some k \<Rightarrow>
          (if Secret k = idKey then Set \<lparr>Key = k, Mode = state_Identity, Backed = False\<rparr>
           else ContinueInvalid)
      | None \<Rightarrow> ContinueInvalid))))"

text \<open>Lines 110 to 115: the first backed key equal to \<^verbatim>\<open>ks\<close> replaces it.\<close>

fun enrich :: "KeyState list \<Rightarrow> KeyState \<Rightarrow> KeyState" where
  "enrich [] ks = ks"
| "enrich (k # backedKeys) ks = (if EqualKeyAndEqualID ks k then k else enrich backedKeys ks)"

text \<open>
  The loop of lines 78 to 122 over the providers of the resource \<open>res\<close>, from index \<open>i\<close>
  on, threading \<^verbatim>\<open>grState\<close> and the log.
\<close>

fun providersLoop :: "string \<Rightarrow> KeyState list \<Rightarrow> string \<Rightarrow> nat \<Rightarrow>
    ProviderConfiguration list \<Rightarrow> GroupResourceState \<Rightarrow> logline list \<Rightarrow>
    GroupResourceState \<times> logline list" where
  "providersLoop idKey backedKeys res i [] grState lg = (grState, lg)"
| "providersLoop idKey backedKeys res i (provider # providers) grState lg =
     (case switchProvider idKey provider of
        ContinueFake \<Rightarrow> providersLoop idKey backedKeys res (Suc i) providers grState lg
      | ContinueInvalid \<Rightarrow>
          providersLoop idKey backedKeys res (Suc i) providers grState
            (lg @ [SkippingInvalidProvider i res])
      | Set ks0 \<Rightarrow>
          (let ks = enrich backedKeys ks0;
               grState1 = (if i = 0 \<or> (Mode ks = state_Identity \<and> \<not> HasWriteKey grState)
                           then grState\<lparr>WriteKey := ks\<rparr> else grState)
           in providersLoop idKey backedKeys res (Suc i) providers
                (grState1\<lparr>ReadKeys := ReadKeys grState1 @ [ks]\<rparr>) lg))"

text \<open>
  The loop of lines 69 to 128 over the resource entries, threading the map \<^verbatim>\<open>out\<close> and
  the log.
\<close>

fun resourcesLoop :: "string \<Rightarrow> (string \<Rightarrow> nat) \<Rightarrow> KeyState list \<Rightarrow>
    ResourceConfiguration list \<Rightarrow> (GroupResource \<rightharpoonup> GroupResourceState) \<Rightarrow> logline list \<Rightarrow>
    (GroupResource \<rightharpoonup> GroupResourceState) \<times> logline list" where
  "resourcesLoop idKey keyID backedKeys [] out lg = (out, lg)"
| "resourcesLoop idKey keyID backedKeys (resourceConfig # rest) out lg =
     (case Resources resourceConfig of
        [res] \<Rightarrow>
          (case providersLoop idKey backedKeys res 0 (Providers resourceConfig)
                  \<lparr>WriteKey = zeroKeyState, ReadKeys = []\<rparr> lg of
             (grState, lg') \<Rightarrow>
               resourcesLoop idKey keyID backedKeys rest
                 (out(ParseGroupResource res \<mapsto>
                        grState\<lparr>ReadKeys := SortRecentFirst keyID (ReadKeys grState)\<rparr>))
                 lg')
      | _ \<Rightarrow>
          resourcesLoop idKey keyID backedKeys rest out
            (lg @ [SkippingInvalidEncryptionConfig (Resources resourceConfig)]))"

text \<open>
  \<^verbatim>\<open>ToEncryptionState\<close>. The map returned for a nil configuration is the nil map, which
  has no entry, as the empty map.
\<close>

definition ToEncryptionState :: "('s \<Rightarrow> string + KeyState) \<Rightarrow> (string \<Rightarrow> nat) \<Rightarrow> string \<Rightarrow>
    EncryptionConfiguration option \<Rightarrow> 's list \<Rightarrow>
    ((GroupResource \<rightharpoonup> GroupResourceState) \<times> KeyState list) \<times> logline list" where
  "ToEncryptionState toKeyState keyID idKey encryptionConfig keySecrets =
     (case backedKeysLoop toKeyState keySecrets [] [] of
        (unsorted, lg) \<Rightarrow>
          (let backedKeys = SortRecentFirst keyID unsorted
           in case encryptionConfig of
                None \<Rightarrow> ((Map.empty, backedKeys), lg)
              | Some resources \<Rightarrow>
                  (case resourcesLoop idKey keyID backedKeys resources Map.empty lg of
                     (out, lg') \<Rightarrow> ((out, backedKeys), lg'))))"

section \<open>Auxiliary notions for the statements\<close>

subsection \<open>Encoder\<close>

text \<open>
  The three modes the encoder translates; the providers that the loop of line 159 appends
  to \<^verbatim>\<open>providers\<close> and to \<^verbatim>\<open>aesgcmProviders\<close> for a list of keys; the lines it
  logs; and whether a provider carries a given key.
\<close>

definition validMode :: "Mode \<Rightarrow> bool" where
  "validMode m = (m = state_AESCBC \<or> m = state_SecretBox \<or> m = state_Identity)"

definition keyProvider :: "KeyState \<Rightarrow> ProviderConfiguration list" where
  "keyProvider k =
     (case Mode k of
        state_AESCBC \<Rightarrow> [aescbcProvider (Key k)]
      | state_SecretBox \<Rightarrow> [secretboxProvider (Key k)]
      | _ \<Rightarrow> [])"

definition keyProviders :: "KeyState list \<Rightarrow> ProviderConfiguration list" where
  "keyProviders ks = concat (map keyProvider ks)"

definition sentinelProviders :: "KeyState list \<Rightarrow> ProviderConfiguration list" where
  "sentinelProviders ks =
     map (\<lambda>k. aesgcmProvider (Key k)) (filter (\<lambda>k. Mode k = state_Identity) ks)"

definition skippedKeys :: "KeyState list \<Rightarrow> logline list" where
  "skippedKeys ks =
     map (\<lambda>k. SkippingKey (Name (Key k)) (Mode k)) (filter (\<lambda>k. \<not> validMode (Mode k)) ks)"

definition carries :: "Key \<Rightarrow> ProviderConfiguration \<Rightarrow> bool" where
  "carries k p = (AESGCM p = Some [k] \<or> AESCBC p = Some [k] \<or> Secretbox p = Some [k])"

text \<open>
  A state on which \<^verbatim>\<open>stateToProviders\<close> panics, and the wire entry that line 26 builds
  for a map entry on which it does not.
\<close>

definition panics :: "GroupResourceState \<Rightarrow> bool" where
  "panics S = (fst (stateToProviders S) = Inl IndexOutOfRange)"

definition providersOf :: "GroupResourceState \<Rightarrow> ProviderConfiguration list" where
  "providersOf S = (case fst (stateToProviders S) of Inr ps \<Rightarrow> ps | Inl e \<Rightarrow> [])"

definition resourceConfigOf ::
    "GroupResource \<times> GroupResourceState \<Rightarrow> ResourceConfiguration" where
  "resourceConfigOf e =
     \<lparr>Resources = [GroupResource_String (fst e)], Providers = providersOf (snd e)\<rparr>"

subsection \<open>Decoder\<close>

text \<open>
  The key states of the records that parse, each marked as backed, and the warnings for
  those that do not; what it means for a list of keys to be sorted most recent first.
\<close>

definition parsedSecrets :: "('s \<Rightarrow> string + KeyState) \<Rightarrow> 's list \<Rightarrow> KeyState list" where
  "parsedSecrets toKeyState ss =
     concat (map (\<lambda>s. case toKeyState s of
                         Inr km \<Rightarrow> [km\<lparr>Backed := True\<rparr>] | Inl err \<Rightarrow> []) ss)"

definition secretWarnings :: "('s \<Rightarrow> string + KeyState) \<Rightarrow> 's list \<Rightarrow> logline list" where
  "secretWarnings toKeyState ss =
     concat (map (\<lambda>s. case toKeyState s of
                         Inr km \<Rightarrow> [] | Inl err \<Rightarrow> [SkippingInvalidSecret err]) ss)"

definition recentFirst :: "(string \<Rightarrow> nat) \<Rightarrow> KeyState list \<Rightarrow> bool" where
  "recentFirst keyID ks = sorted_wrt (\<lambda>a b. keyID (Name (Key b)) \<le> keyID (Name (Key a))) ks"

text \<open>
  The keys that a list of providers decodes to, in order, each after the enrichment from
  the backed keys; the log lines of the providers that are invalid; the first key of
  identity mode in a list of keys, or a default.
\<close>

definition decodedKey ::
    "string \<Rightarrow> KeyState list \<Rightarrow> ProviderConfiguration \<Rightarrow> KeyState list" where
  "decodedKey idKey backedKeys p =
     (case switchProvider idKey p of Set ks \<Rightarrow> [enrich backedKeys ks] | _ \<Rightarrow> [])"

definition decodedKeys ::
    "string \<Rightarrow> KeyState list \<Rightarrow> ProviderConfiguration list \<Rightarrow> KeyState list" where
  "decodedKeys idKey backedKeys ps = concat (map (decodedKey idKey backedKeys) ps)"

fun invalidProviders ::
    "string \<Rightarrow> string \<Rightarrow> nat \<Rightarrow> ProviderConfiguration list \<Rightarrow> logline list" where
  "invalidProviders idKey res i [] = []"
| "invalidProviders idKey res i (p # ps) =
     (if switchProvider idKey p = ContinueInvalid then [SkippingInvalidProvider i res] else [])
     @ invalidProviders idKey res (Suc i) ps"

definition firstIdentity :: "KeyState list \<Rightarrow> KeyState \<Rightarrow> KeyState" where
  "firstIdentity ks dflt =
     (case find (\<lambda>k. Mode k = state_Identity) ks of Some k \<Rightarrow> k | None \<Rightarrow> dflt)"

text \<open>
  The write key of a provider list, stated by cases on position 0: the key decoded there
  if there is one; otherwise the first key of identity mode decoded from the later
  positions; otherwise none.
\<close>

definition writeKeyOf ::
    "string \<Rightarrow> KeyState list \<Rightarrow> ProviderConfiguration list \<Rightarrow> KeyState" where
  "writeKeyOf idKey backedKeys ps =
     (case ps of
        [] \<Rightarrow> zeroKeyState
      | p # rest \<Rightarrow>
          (case switchProvider idKey p of
             Set ks \<Rightarrow> enrich backedKeys ks
           | _ \<Rightarrow> firstIdentity (decodedKeys idKey backedKeys rest) zeroKeyState))"

definition grStateOf :: "string \<Rightarrow> (string \<Rightarrow> nat) \<Rightarrow> KeyState list \<Rightarrow>
    ProviderConfiguration list \<Rightarrow> GroupResourceState" where
  "grStateOf idKey keyID backedKeys ps =
     \<lparr>WriteKey = writeKeyOf idKey backedKeys ps,
      ReadKeys = SortRecentFirst keyID (decodedKeys idKey backedKeys ps)\<rparr>"

text \<open>A wire entry that is valid and is stored under the group resource \<open>gr\<close>.\<close>

definition namesResource :: "GroupResource \<Rightarrow> ResourceConfiguration \<Rightarrow> bool" where
  "namesResource gr rc =
     (case Resources rc of [res] \<Rightarrow> ParseGroupResource res = gr | _ \<Rightarrow> False)"

definition unbacked :: "KeyState \<Rightarrow> KeyState" where
  "unbacked k = k\<lparr>Backed := False\<rparr>"

text \<open>
  A key that survives encoding and decoding: its mode is one of the three, and if the mode
  is identity, its secret is the sentinel.
\<close>

definition encodable :: "string \<Rightarrow> KeyState \<Rightarrow> bool" where
  "encodable idKey k =
     (validMode (Mode k) \<and> (Mode k = state_Identity \<longrightarrow> Secret (Key k) = idKey))"

subsection \<open>Sample values\<close>

text \<open>
  Values for the examples: a sentinel (the base64 text of sixteen zero bytes), the group
  resource \<open>secrets\<close>, the key \<open>k1\<close> of the identity scenario, keys of each mode, a
  collaborator for records that either hold a key state or do not parse, and a rank of
  the identifiers of the sample keys.
\<close>

abbreviation sentinel :: string where
  "sentinel \<equiv> ''AAAAAAAAAAAAAAAAAAAAAA==''"

abbreviation secretsGR :: GroupResource where
  "secretsGR \<equiv> \<lparr>Group = [], Resource = ''secrets''\<rparr>"

abbreviation key1 :: KeyState where
  "key1 \<equiv> \<lparr>Key = \<lparr>Name = ''key-1'', Secret = sentinel\<rparr>, Mode = state_Identity, Backed = False\<rparr>"

abbreviation scenarioKey :: KeyState where
  "scenarioKey \<equiv>
     \<lparr>Key = \<lparr>Name = ''k1'', Secret = sentinel\<rparr>, Mode = state_Identity, Backed = False\<rparr>"

abbreviation key1x :: KeyState where
  "key1x \<equiv> \<lparr>Key = \<lparr>Name = ''key-1'', Secret = ''czE=''\<rparr>, Mode = state_Identity, Backed = False\<rparr>"

abbreviation key2 :: KeyState where
  "key2 \<equiv> \<lparr>Key = \<lparr>Name = ''key-2'', Secret = ''czI=''\<rparr>, Mode = state_SecretBox, Backed = False\<rparr>"

abbreviation key3 :: KeyState where
  "key3 \<equiv> \<lparr>Key = \<lparr>Name = ''key-3'', Secret = ''czM=''\<rparr>, Mode = state_AESCBC, Backed = False\<rparr>"

abbreviation key4 :: KeyState where
  "key4 \<equiv> \<lparr>Key = \<lparr>Name = ''key-4'', Secret = ''czQ=''\<rparr>, Mode = OtherMode ''bogus'',
            Backed = False\<rparr>"

definition sampleToKeyState :: "KeyState option \<Rightarrow> string + KeyState" where
  "sampleToKeyState s = (case s of None \<Rightarrow> Inl ''no key'' | Some km \<Rightarrow> Inr km)"

definition sampleKeyID :: "string \<Rightarrow> nat" where
  "sampleKeyID name =
     (if name = ''key-1'' then 1 else if name = ''key-2'' then 2 else if name = ''key-3'' then 3
      else 0)"

section \<open>Basic facts\<close>

lemma error_is_IndexOutOfRange: "(e::error) = IndexOutOfRange"
  by (cases e) simp

lemma EqualKeyAndEqualID_Key: "EqualKeyAndEqualID a b = (Key a = Key b)"
  by (auto simp: EqualKeyAndEqualID_def intro: Key.equality)

lemma HasWriteKey_simps [simp]:
  "HasWriteKey \<lparr>WriteKey = w, ReadKeys = r\<rparr> = (w \<noteq> zeroKeyState)"
  "HasWriteKey (g\<lparr>ReadKeys := r\<rparr>) = HasWriteKey g"
  "HasWriteKey (g\<lparr>WriteKey := w\<rparr>) = (w \<noteq> zeroKeyState)"
  by (simp_all add: HasWriteKey_def)

lemma Identity_not_zero: "Mode k = state_Identity \<Longrightarrow> k \<noteq> zeroKeyState"
  by (auto simp: zeroKeyState_def)

lemma validMode_not_zero: "validMode (Mode k) \<Longrightarrow> k \<noteq> zeroKeyState"
  by (auto simp: zeroKeyState_def validMode_def)

lemma Backed_not_zero: "Backed k \<Longrightarrow> k \<noteq> zeroKeyState"
  by (auto simp: zeroKeyState_def)

lemma ParseGroupResource_String:
  assumes "CHR ''.'' \<notin> set (Resource gr)"
  shows "ParseGroupResource (GroupResource_String gr) = gr"
proof (cases "Group gr = []")
  case True
  with assms show ?thesis
    by (simp add: ParseGroupResource_def GroupResource_String_def)
next
  case False
  from assms
  have "takeWhile (\<lambda>c. c \<noteq> CHR ''.'') (Resource gr @ CHR ''.'' # Group gr) = Resource gr"
    by (auto simp: takeWhile_tail)
  moreover from assms
  have "dropWhile (\<lambda>c. c \<noteq> CHR ''.'') (Resource gr @ CHR ''.'' # Group gr)
          = CHR ''.'' # Group gr"
    by (auto simp: dropWhile_append3)
  ultimately show ?thesis
    using False by (simp add: ParseGroupResource_def GroupResource_String_def)
qed

subsection \<open>Sorting most recent first\<close>

lemma mset_insertRecent: "mset (insertRecent keyID k xs) = add_mset k (mset xs)"
  by (induction xs) simp_all

lemma mset_SortRecentFirst: "mset (SortRecentFirst keyID ks) = mset ks"
  by (induction ks) (simp_all add: SortRecentFirst_def mset_insertRecent)

lemma set_SortRecentFirst: "set (SortRecentFirst keyID ks) = set ks"
  by (metis mset_SortRecentFirst set_mset_mset)

lemma set_insertRecent: "set (insertRecent keyID k xs) = insert k (set xs)"
  by (induction xs) auto

lemma recentFirst_insertRecent:
  "recentFirst keyID xs \<Longrightarrow> recentFirst keyID (insertRecent keyID k xs)"
  by (induction xs) (auto simp: recentFirst_def set_insertRecent)

lemma recentFirst_SortRecentFirst: "recentFirst keyID (SortRecentFirst keyID ks)"
proof (induction ks)
  case Nil
  show ?case by (simp add: SortRecentFirst_def recentFirst_def)
next
  case (Cons k ks)
  then show ?case
    using recentFirst_insertRecent [of keyID "SortRecentFirst keyID ks" k]
    by (simp add: SortRecentFirst_def)
qed

section \<open>The encoder\<close>

subsection \<open>The loop over the keys\<close>

lemma keysLoop_Suc:
  "keysLoop (Suc i) ks P A L =
     (P @ keyProviders ks, A @ sentinelProviders ks, L @ skippedKeys ks)"
  by (induction ks arbitrary: i P A L)
     (simp_all add: keyProviders_def keyProvider_def sentinelProviders_def skippedKeys_def
        validMode_def split: Mode.splits)

lemma keysLoop_0:
  "keysLoop 0 ks P A L =
     (P @ (case ks of [] \<Rightarrow> []
           | k # _ \<Rightarrow> (if Mode k = state_Identity then [identityProvider] else []))
        @ keyProviders ks,
      A @ sentinelProviders ks, L @ skippedKeys ks)"
  by (cases ks)
     (simp_all add: keysLoop_Suc keyProviders_def keyProvider_def sentinelProviders_def
        skippedKeys_def validMode_def split: Mode.splits)

lemma keyProviders_Cons: "keyProviders (k # ks) = keyProvider k @ keyProviders ks"
  by (simp add: keyProviders_def)

lemma keyProvider_Identity: "p \<in> set (keyProvider k) \<Longrightarrow> Identity p = None"
  by (cases "Mode k") (auto simp: keyProvider_def aescbcProvider_def secretboxProvider_def)

lemma keyProviders_Identity: "p \<in> set (keyProviders ks) \<Longrightarrow> Identity p = None"
  unfolding keyProviders_def using keyProvider_Identity by auto

subsection \<open>The provider list\<close>

lemma stateToProviders_eq:
  "stateToProviders S =
     (case (if HasWriteKey S then [] else [identityProvider])
             @ (case allKeys S of [] \<Rightarrow> []
                | k # _ \<Rightarrow> (if Mode k = state_Identity then [identityProvider] else []))
             @ keyProviders (allKeys S) of
        [] \<Rightarrow> (Inl IndexOutOfRange, skippedKeys (allKeys S))
      | p # ps \<Rightarrow>
          (Inr ((if Identity p = None then p # ps @ [identityProvider] else p # ps)
                @ sentinelProviders (allKeys S)), skippedKeys (allKeys S)))"
  by (simp add: stateToProviders_def keysLoop_0 split: list.splits)

lemma stateToProviders_no_write_key:
  "\<not> HasWriteKey S \<Longrightarrow>
     \<exists>ps. stateToProviders S = (Inr (identityProvider # ps), skippedKeys (ReadKeys S))"
  by (simp add: stateToProviders_eq allKeys_def identityProvider_def)

lemma stateToProviders_write_key:
  assumes "HasWriteKey S"
  shows "stateToProviders S =
     (if Mode (WriteKey S) = state_Identity
      then Inr (identityProvider # keyProviders (allKeys S) @ sentinelProviders (allKeys S))
      else if keyProviders (allKeys S) = [] then Inl IndexOutOfRange
      else Inr (keyProviders (allKeys S) @ [identityProvider] @ sentinelProviders (allKeys S)),
      skippedKeys (allKeys S))"
proof (cases "Mode (WriteKey S) = state_Identity")
  case True
  with assms show ?thesis
    by (simp add: stateToProviders_eq allKeys_def identityProvider_def)
next
  case False
  show ?thesis
  proof (cases "keyProviders (allKeys S)")
    case Nil
    with False assms show ?thesis
      by (simp add: stateToProviders_eq allKeys_def)
  next
    case (Cons p ps)
    then have "Identity p = None"
      using keyProviders_Identity [of p "allKeys S"] by simp
    with Cons False assms show ?thesis
      by (simp add: stateToProviders_eq allKeys_def)
  qed
qed

lemma stateToProviders_first_key:
  assumes "HasWriteKey S"
  shows "stateToProviders S =
     (case Mode (WriteKey S) of
        state_AESCBC \<Rightarrow>
          Inr (aescbcProvider (Key (WriteKey S))
               # keyProviders (filterWriteKey (WriteKey S) (ReadKeys S))
               @ identityProvider
               # sentinelProviders (filterWriteKey (WriteKey S) (ReadKeys S)))
      | state_SecretBox \<Rightarrow>
          Inr (secretboxProvider (Key (WriteKey S))
               # keyProviders (filterWriteKey (WriteKey S) (ReadKeys S))
               @ identityProvider
               # sentinelProviders (filterWriteKey (WriteKey S) (ReadKeys S)))
      | state_Identity \<Rightarrow>
          Inr (identityProvider
               # keyProviders (filterWriteKey (WriteKey S) (ReadKeys S))
               @ aesgcmProvider (Key (WriteKey S))
               # sentinelProviders (filterWriteKey (WriteKey S) (ReadKeys S)))
      | OtherMode m \<Rightarrow>
          (if keyProviders (filterWriteKey (WriteKey S) (ReadKeys S)) = []
           then Inl IndexOutOfRange
           else Inr (keyProviders (filterWriteKey (WriteKey S) (ReadKeys S))
                     @ identityProvider
                     # sentinelProviders (filterWriteKey (WriteKey S) (ReadKeys S)))),
      skippedKeys (allKeys S))"
proof -
  have ak: "allKeys S = WriteKey S # filterWriteKey (WriteKey S) (ReadKeys S)"
    using assms by (simp add: allKeys_def)
  show ?thesis
    unfolding stateToProviders_write_key [OF assms]
    by (cases "Mode (WriteKey S)")
       (simp_all add: ak keyProviders_Cons keyProvider_def sentinelProviders_def)
qed

lemma skippedKeys_Cons_valid:
  "validMode (Mode k) \<Longrightarrow> skippedKeys (k # ks) = skippedKeys ks"
  by (simp add: skippedKeys_def)

lemma AESGCM_keyProviders: "filter (\<lambda>p. AESGCM p \<noteq> None) (keyProviders ks) = []"
proof -
  have "AESGCM p = None" if "p \<in> set (keyProvider k)" for p k
    using that by (cases "Mode k") (auto simp: keyProvider_def aescbcProvider_def
        secretboxProvider_def)
  then show ?thesis by (auto simp: keyProviders_def filter_empty_conv)
qed

lemma AESGCM_sentinelProviders:
  "filter (\<lambda>p. AESGCM p \<noteq> None) (sentinelProviders ks) = sentinelProviders ks"
  by (simp add: sentinelProviders_def aesgcmProvider_def)

lemma sentinelProviders_member:
  "k \<in> set ks \<Longrightarrow> Mode k = state_Identity \<Longrightarrow>
     aesgcmProvider (Key k) \<in> set (sentinelProviders ks)"
  by (induction ks) (auto simp: sentinelProviders_def)

lemma sentinelProviders_suffix:
  assumes "stateToProviders S = (Inr ps, lg)"
  shows "set (sentinelProviders (allKeys S)) \<subseteq> set ps"
  using assms by (auto simp: stateToProviders_eq split: list.splits if_splits)

subsection \<open>Cutting the write key out of the read keys\<close>

lemma filterWriteKey_eq:
  "filterWriteKey w ks =
     takeWhile (\<lambda>k. \<not> EqualKeyAndEqualID k w) ks
     @ drop 1 (dropWhile (\<lambda>k. \<not> EqualKeyAndEqualID k w) ks)"
  by (induction ks) simp_all

lemma filterWriteKey_filter:
  "length (filter (\<lambda>k. EqualKeyAndEqualID k w) ks) \<le> 1 \<Longrightarrow>
     filterWriteKey w ks = filter (\<lambda>k. \<not> EqualKeyAndEqualID k w) ks"
proof (induction ks)
  case Nil
  show ?case by simp
next
  case (Cons k ks)
  show ?case
  proof (cases "EqualKeyAndEqualID k w")
    case True
    with Cons.prems have "filter (\<lambda>k. EqualKeyAndEqualID k w) ks = []" by simp
    then have "filter (\<lambda>k. \<not> EqualKeyAndEqualID k w) ks = ks"
      by (simp add: filter_empty_conv)
    with True show ?thesis by simp
  next
    case False
    with Cons show ?thesis by simp
  qed
qed

lemma filterWriteKey_keeps:
  "k \<in> set ks \<Longrightarrow> \<not> EqualKeyAndEqualID k w \<Longrightarrow> k \<in> set (filterWriteKey w ks)"
  by (induction ks) auto

lemma filterWriteKey_subset: "set (filterWriteKey w ks) \<subseteq> set ks"
  by (induction ks) auto

subsection \<open>Providers that carry a key\<close>

lemma carries_keyProviders:
  "length (filter (carries K) (keyProviders ks)) =
     length (filter (\<lambda>k. (Mode k = state_AESCBC \<or> Mode k = state_SecretBox) \<and> Key k = K) ks)"
  by (induction ks)
     (auto simp: keyProviders_def keyProvider_def carries_def aescbcProvider_def
        secretboxProvider_def split: Mode.splits)

lemma carries_sentinelProviders:
  "length (filter (carries K) (sentinelProviders ks)) =
     length (filter (\<lambda>k. Mode k = state_Identity \<and> Key k = K) ks)"
  by (induction ks) (auto simp: sentinelProviders_def carries_def aesgcmProvider_def)

lemma carries_identityProvider: "\<not> carries K identityProvider"
  by (simp add: carries_def identityProvider_def)

lemma carried_once:
  assumes ps: "stateToProviders S = (Inr ps, lg)" and w: "HasWriteKey S"
    and v: "validMode (Mode (WriteKey S))"
    and t: "\<forall>k\<in>set (filterWriteKey (WriteKey S) (ReadKeys S)). Key k \<noteq> Key (WriteKey S)"
  shows "length (filter (carries (Key (WriteKey S))) ps) = 1"
proof -
  let ?K = "Key (WriteKey S)"
  let ?t = "filterWriteKey (WriteKey S) (ReadKeys S)"
  have ak: "allKeys S = WriteKey S # ?t" using w by (simp add: allKeys_def)
  from t have none: "filter (\<lambda>k. P k \<and> Key k = ?K) ?t = []" for P
    by (simp add: filter_empty_conv)
  have "length (filter (carries ?K) ps) =
      length (filter (carries ?K) (keyProviders (allKeys S)))
      + length (filter (carries ?K) (sentinelProviders (allKeys S)))"
    using ps by (auto simp: stateToProviders_write_key [OF w] carries_identityProvider
        split: if_splits)
  also have "\<dots> = 1"
    using v unfolding carries_keyProviders carries_sentinelProviders ak
    by (auto simp: none validMode_def)
  finally show ?thesis .
qed

subsection \<open>The resource entries\<close>

lemma resourceConfigsLoop_fst:
  "fst (resourceConfigsLoop m acc lg) =
     (if \<exists>e\<in>set m. panics (snd e) then Inl IndexOutOfRange
      else Inr (acc @ map resourceConfigOf m))"
proof (induction m arbitrary: acc lg)
  case Nil
  then show ?case by simp
next
  case (Cons a m)
  obtain gr S where a: "a = (gr, S)" by (cases a)
  obtain r l where st: "stateToProviders S = (r, l)" by (cases "stateToProviders S")
  show ?case
  proof (cases r)
    case (Inl e)
    with a st show ?thesis by (simp add: panics_def error_is_IndexOutOfRange)
  next
    case (Inr ps)
    with a st Cons.IH show ?thesis
      by (simp add: panics_def resourceConfigOf_def providersOf_def)
  qed
qed

lemma FromEncryptionState_fst:
  "fst (FromEncryptionState m) =
     (if \<exists>e\<in>set m. panics (snd e) then Inl IndexOutOfRange
      else Inr (sort_key (\<lambda>rc. hd (Resources rc)) (map resourceConfigOf m)))"
proof -
  obtain r l where rl: "resourceConfigsLoop m [] [] = (r, l)"
    by (cases "resourceConfigsLoop m [] []")
  have "r = (if \<exists>e\<in>set m. panics (snd e) then Inl IndexOutOfRange
      else Inr (map resourceConfigOf m))"
    using resourceConfigsLoop_fst [of m "[]" "[]"] rl by simp
  with rl show ?thesis
    by (simp add: FromEncryptionState_def)
qed

lemma hd_Resources_resourceConfigOf:
  "map (\<lambda>rc. hd (Resources rc)) (map resourceConfigOf m) =
     map (\<lambda>e. GroupResource_String (fst e)) m"
  by (simp add: resourceConfigOf_def)

lemma Resources_resourceConfigOf:
  "Resources rc = [hd (Resources rc)]" if "rc \<in> set (map resourceConfigOf m)"
  using that by (auto simp: resourceConfigOf_def)

lemma sort_key_map_key: "map f (sort_key f xs) = sort (map f xs)"
proof -
  have "mset (map f (sort_key f xs)) = mset (map f xs)" by simp
  moreover have "sorted (map f (sort_key f xs))" by simp
  ultimately show ?thesis by (metis properties_for_sort)
qed

section \<open>The decoder\<close>

subsection \<open>The backed keys\<close>

lemma backedKeysLoop_eq:
  "backedKeysLoop toKeyState ss acc lg =
     (acc @ parsedSecrets toKeyState ss, lg @ secretWarnings toKeyState ss)"
  by (induction ss arbitrary: acc lg)
     (simp_all add: parsedSecrets_def secretWarnings_def split: sum.splits)

lemma parsedSecrets_Backed: "\<forall>k\<in>set (parsedSecrets toKeyState ss). Backed k"
  by (auto simp: parsedSecrets_def split: sum.splits)

subsection \<open>The switch and the enrichment\<close>

lemma switchProvider_simps:
  "switchProvider idKey identityProvider = ContinueFake"
  "switchProvider idKey (aescbcProvider K) = Set \<lparr>Key = K, Mode = state_AESCBC, Backed = False\<rparr>"
  "switchProvider idKey (secretboxProvider K) =
     Set \<lparr>Key = K, Mode = state_SecretBox, Backed = False\<rparr>"
  "switchProvider idKey (aesgcmProvider K) =
     (if Secret K = idKey then Set \<lparr>Key = K, Mode = state_Identity, Backed = False\<rparr>
      else ContinueInvalid)"
  by (simp_all add: switchProvider_def singleKey_def identityProvider_def aescbcProvider_def
      secretboxProvider_def aesgcmProvider_def)

lemma switchProvider_Set_validMode:
  "switchProvider idKey p = Set ks \<Longrightarrow> validMode (Mode ks) \<and> \<not> Backed ks"
  by (auto simp: switchProvider_def validMode_def split: option.splits if_splits)

lemma enrich_cases: "enrich bk ks = ks \<or> enrich bk ks \<in> set bk"
  by (induction bk) auto

lemma enrich_not_zero:
  assumes "switchProvider idKey p = Set ks" and "\<forall>k\<in>set bk. Backed k"
  shows "enrich bk ks \<noteq> zeroKeyState"
  using enrich_cases [of bk ks] assms switchProvider_Set_validMode [of idKey p ks]
  by (auto simp: validMode_not_zero Backed_not_zero)

subsection \<open>The loop over the providers\<close>

lemma decodedKeys_simps:
  "decodedKeys idKey bk [] = []"
  "decodedKeys idKey bk (p # ps) = decodedKey idKey bk p @ decodedKeys idKey bk ps"
  "decodedKeys idKey bk (ps @ qs) = decodedKeys idKey bk ps @ decodedKeys idKey bk qs"
  by (simp_all add: decodedKeys_def)

lemma decodedKey_subset:
  "p \<in> set ps \<Longrightarrow> set (decodedKey idKey bk p) \<subseteq> set (decodedKeys idKey bk ps)"
  by (auto simp: decodedKeys_def)

lemma providersLoop_Suc:
  "providersLoop idKey bk res (Suc i) ps g lg =
     (\<lparr>WriteKey = (if HasWriteKey g then WriteKey g
                   else firstIdentity (decodedKeys idKey bk ps) (WriteKey g)),
       ReadKeys = ReadKeys g @ decodedKeys idKey bk ps\<rparr>,
      lg @ invalidProviders idKey res (Suc i) ps)"
proof (induction ps arbitrary: i g lg)
  case Nil
  show ?case by (simp add: decodedKeys_def firstIdentity_def)
next
  case (Cons p ps)
  show ?case
  proof (cases "switchProvider idKey p")
    case (Set ks0)
    then show ?thesis
      by (simp add: Cons.IH decodedKeys_def decodedKey_def firstIdentity_def Let_def
          Identity_not_zero)
  next
    case ContinueFake
    then show ?thesis
      by (simp add: Cons.IH decodedKeys_def decodedKey_def)
  next
    case ContinueInvalid
    then show ?thesis
      by (simp add: Cons.IH decodedKeys_def decodedKey_def)
  qed
qed

lemma providersLoop_0:
  assumes "\<forall>k\<in>set bk. Backed k"
  shows "providersLoop idKey bk res 0 ps \<lparr>WriteKey = zeroKeyState, ReadKeys = []\<rparr> lg =
     (\<lparr>WriteKey = writeKeyOf idKey bk ps, ReadKeys = decodedKeys idKey bk ps\<rparr>,
      lg @ invalidProviders idKey res 0 ps)"
proof (cases ps)
  case Nil
  then show ?thesis by (simp add: writeKeyOf_def decodedKeys_def)
next
  case (Cons p rest)
  show ?thesis
  proof (cases "switchProvider idKey p")
    case (Set ks0)
    from Set assms have "enrich bk ks0 \<noteq> zeroKeyState" by (rule enrich_not_zero)
    with Set Cons show ?thesis
      by (simp add: providersLoop_Suc writeKeyOf_def decodedKeys_def decodedKey_def Let_def)
  next
    case ContinueFake
    with Cons show ?thesis
      by (simp add: providersLoop_Suc writeKeyOf_def decodedKeys_def decodedKey_def)
  next
    case ContinueInvalid
    with Cons show ?thesis
      by (simp add: providersLoop_Suc writeKeyOf_def decodedKeys_def decodedKey_def)
  qed
qed

subsection \<open>The loop over the resource entries\<close>

lemma resourcesLoop_other:
  assumes "\<forall>rc\<in>set cfg. \<not> namesResource gr rc"
  shows "fst (resourcesLoop idKey keyID bk cfg out lg) gr = out gr"
  using assms
proof (induction cfg arbitrary: out lg)
  case Nil
  show ?case by simp
next
  case (Cons rc cfg)
  then show ?case
    by (auto simp: namesResource_def split: list.splits prod.splits)
qed

lemma resourcesLoop_append:
  "resourcesLoop idKey keyID bk (pre @ post) out lg =
     (case resourcesLoop idKey keyID bk pre out lg of
        (out', lg') \<Rightarrow> resourcesLoop idKey keyID bk post out' lg')"
  by (induction pre arbitrary: out lg) (auto split: list.splits prod.splits)

lemma resourcesLoop_last_entry:
  assumes bk: "\<forall>k\<in>set bk. Backed k"
    and rc: "Resources rc = [res]"
    and post: "\<forall>rc'\<in>set post. \<not> namesResource (ParseGroupResource res) rc'"
  shows "fst (resourcesLoop idKey keyID bk (pre @ rc # post) out lg) (ParseGroupResource res) =
           Some (grStateOf idKey keyID bk (Providers rc))"
proof -
  obtain out' lg' where pre: "resourcesLoop idKey keyID bk pre out lg = (out', lg')"
    by (cases "resourcesLoop idKey keyID bk pre out lg")
  show ?thesis
    using rc post
    by (simp add: resourcesLoop_append pre providersLoop_0 [OF bk] resourcesLoop_other
        grStateOf_def)
qed

lemma ToEncryptionState_Some:
  "ToEncryptionState toKeyState keyID idKey (Some cfg) ss =
     (case resourcesLoop idKey keyID (SortRecentFirst keyID (parsedSecrets toKeyState ss)) cfg
             Map.empty (secretWarnings toKeyState ss) of
        (out, lg) \<Rightarrow> ((out, SortRecentFirst keyID (parsedSecrets toKeyState ss)), lg))"
  by (simp add: ToEncryptionState_def backedKeysLoop_eq Let_def)

lemma ToEncryptionState_single:
  "ToEncryptionState toKeyState keyID idKey (Some [\<lparr>Resources = [res], Providers = ps\<rparr>]) [] =
     (([ParseGroupResource res \<mapsto> grStateOf idKey keyID [] ps], []),
      invalidProviders idKey res 0 ps)"
  using providersLoop_0 [of "[]" idKey res ps "[]"]
  by (simp add: ToEncryptionState_def SortRecentFirst_def grStateOf_def)

subsection \<open>Decoding what the encoder emits\<close>

lemma decodedKey_identityProvider: "decodedKey idKey bk identityProvider = []"
  by (simp add: decodedKey_def switchProvider_simps)

lemma decodedKeys_keyProvider:
  "decodedKeys idKey [] (keyProvider k) =
     (if Mode k = state_AESCBC \<or> Mode k = state_SecretBox then [unbacked k] else [])"
  by (cases "Mode k")
     (simp_all add: keyProvider_def decodedKeys_def decodedKey_def switchProvider_simps
        unbacked_def)

lemma decodedKeys_keyProviders:
  "decodedKeys idKey [] (keyProviders ks) =
     map unbacked (filter (\<lambda>k. Mode k = state_AESCBC \<or> Mode k = state_SecretBox) ks)"
proof (induction ks)
  case Nil
  show ?case by (simp add: keyProviders_def decodedKeys_def)
next
  case (Cons k ks)
  then show ?case
    by (simp add: keyProviders_Cons decodedKeys_simps(3) decodedKeys_keyProvider)
qed

lemma decodedKeys_sentinelProviders:
  assumes "\<forall>k\<in>set ks. Mode k = state_Identity \<longrightarrow> Secret (Key k) = idKey"
  shows "decodedKeys idKey [] (sentinelProviders ks) =
     map unbacked (filter (\<lambda>k. Mode k = state_Identity) ks)"
  using assms
  by (induction ks)
     (auto simp: sentinelProviders_def decodedKeys_def decodedKey_def switchProvider_simps
        unbacked_def)

lemma find_append_None: "find P xs = None \<Longrightarrow> find P (xs @ ys) = find P ys"
  by (induction xs) (auto split: if_splits)

lemma firstIdentity_after_keys:
  assumes "Mode w = state_Identity"
  shows "firstIdentity
           (map unbacked (filter (\<lambda>k. Mode k = state_AESCBC \<or> Mode k = state_SecretBox) ks)
            @ unbacked w # rest) d = unbacked w"
proof -
  let ?xs = "map unbacked (filter (\<lambda>k. Mode k = state_AESCBC \<or> Mode k = state_SecretBox) ks)"
  have "find (\<lambda>k. Mode k = state_Identity) ?xs = None"
    by (auto simp: find_None_iff unbacked_def)
  then have "find (\<lambda>k. Mode k = state_Identity) (?xs @ unbacked w # rest) = Some (unbacked w)"
    using assms by (simp add: find_append_None unbacked_def)
  then show ?thesis by (simp add: firstIdentity_def)
qed

lemma encodable_keys:
  assumes "\<forall>k\<in>set ks. encodable idKey k"
  shows "set (filter (\<lambda>k. Mode k = state_AESCBC \<or> Mode k = state_SecretBox) ks)
         \<union> set (filter (\<lambda>k. Mode k = state_Identity) ks) = set ks"
  using assms by (auto simp: encodable_def validMode_def)

lemma encodable_not_skipped:
  assumes "\<forall>k\<in>set ks. encodable idKey k"
  shows "skippedKeys ks = []"
  using assms by (simp add: skippedKeys_def encodable_def filter_empty_conv)

lemma Key_unbacked: "Key (unbacked k) = Key k"
  by (simp add: unbacked_def)

lemma Key_allKeys:
  assumes "HasWriteKey S" and "Key (WriteKey S) \<in> Key ` set (ReadKeys S)"
  shows "Key ` set (allKeys S) = Key ` set (ReadKeys S)"
proof
  show "Key ` set (allKeys S) \<subseteq> Key ` set (ReadKeys S)"
    using assms filterWriteKey_subset [of "WriteKey S" "ReadKeys S"]
    by (auto simp: allKeys_def)
next
  show "Key ` set (ReadKeys S) \<subseteq> Key ` set (allKeys S)"
  proof
    fix K
    assume "K \<in> Key ` set (ReadKeys S)"
    then obtain k where k: "k \<in> set (ReadKeys S)" "K = Key k" by blast
    show "K \<in> Key ` set (allKeys S)"
    proof (cases "EqualKeyAndEqualID k (WriteKey S)")
      case True
      with k assms(1) show ?thesis
        by (simp add: allKeys_def EqualKeyAndEqualID_Key)
    next
      case False
      with k(1) have "k \<in> set (filterWriteKey (WriteKey S) (ReadKeys S))"
        by (rule filterWriteKey_keeps)
      with k(2) assms(1) show ?thesis by (simp add: allKeys_def)
    qed
  qed
qed

lemma decode_encoded:
  assumes w: "HasWriteKey S"
    and v: "\<forall>k\<in>set (WriteKey S # ReadKeys S). encodable idKey k"
  shows "\<exists>ps. stateToProviders S = (Inr ps, [])
     \<and> Key (writeKeyOf idKey [] ps) = Key (WriteKey S)
     \<and> Key ` set (decodedKeys idKey [] ps) = Key ` set (allKeys S)"
proof -
  let ?w = "WriteKey S"
  let ?t = "filterWriteKey ?w (ReadKeys S)"
  let ?ak = "allKeys S"
  let ?kp = "\<lambda>ks. filter (\<lambda>k. Mode k = state_AESCBC \<or> Mode k = state_SecretBox) ks"
  let ?id = "\<lambda>ks. filter (\<lambda>k. Mode k = state_Identity) ks"
  have ak: "?ak = ?w # ?t" using w by (simp add: allKeys_def)
  have va: "\<forall>k\<in>set ?ak. encodable idKey k"
    using v filterWriteKey_subset [of ?w "ReadKeys S"] by (auto simp: ak)
  then have ids: "\<forall>k\<in>set ?ak. Mode k = state_Identity \<longrightarrow> Secret (Key k) = idKey"
    by (simp add: encodable_def)
  have sk: "skippedKeys ?ak = []" using va by (rule encodable_not_skipped)
  have dk: "decodedKeys idKey [] (keyProviders ?ak) = map unbacked (?kp ?ak)"
    by (rule decodedKeys_keyProviders)
  have ds: "decodedKeys idKey [] (sentinelProviders ?ak) = map unbacked (?id ?ak)"
    using ids by (rule decodedKeys_sentinelProviders)
  have keys: "Key ` set (map unbacked (?kp ?ak) @ map unbacked (?id ?ak)) = Key ` set ?ak"
  proof -
    have "Key ` set (map unbacked (?kp ?ak) @ map unbacked (?id ?ak))
        = Key ` (set (?kp ?ak) \<union> set (?id ?ak))"
      by (simp add: image_Un image_image Key_unbacked)
    also have "set (?kp ?ak) \<union> set (?id ?ak) = set ?ak"
      using va by (rule encodable_keys)
    finally show ?thesis .
  qed
  from v have vw: "validMode (Mode ?w)" by (simp add: encodable_def)
  show ?thesis
  proof (cases "Mode ?w = state_Identity")
    case True
    let ?ps = "identityProvider # keyProviders ?ak @ sentinelProviders ?ak"
    have enc: "stateToProviders S = (Inr ?ps, [])"
      using True by (simp add: stateToProviders_write_key [OF w] sk)
    have d: "decodedKeys idKey [] (keyProviders ?ak @ sentinelProviders ?ak)
        = map unbacked (?kp ?ak) @ map unbacked (?id ?ak)"
      by (simp add: decodedKeys_simps(3) dk ds)
    have "?kp ?ak = ?kp ?t" and "?id ?ak = ?w # ?id ?t"
      using True by (simp_all add: ak)
    then have "firstIdentity (decodedKeys idKey [] (keyProviders ?ak @ sentinelProviders ?ak))
        zeroKeyState = unbacked ?w"
      using firstIdentity_after_keys [OF True] by (simp add: d)
    then have wk: "Key (writeKeyOf idKey [] ?ps) = Key ?w"
      by (simp add: writeKeyOf_def switchProvider_simps Key_unbacked)
    have "decodedKeys idKey [] ?ps = map unbacked (?kp ?ak) @ map unbacked (?id ?ak)"
      by (simp add: decodedKeys_simps(2) decodedKey_identityProvider d)
    with keys have "Key ` set (decodedKeys idKey [] ?ps) = Key ` set ?ak" by simp
    with enc wk show ?thesis by blast
  next
    case False
    with vw have m: "Mode ?w = state_AESCBC \<or> Mode ?w = state_SecretBox"
      by (simp add: validMode_def)
    let ?ps = "keyProviders ?ak @ [identityProvider] @ sentinelProviders ?ak"
    from m have ne: "keyProviders ?ak \<noteq> []"
      by (auto simp: ak keyProviders_Cons keyProvider_def)
    have enc: "stateToProviders S = (Inr ?ps, [])"
      using False ne by (simp add: stateToProviders_write_key [OF w] sk)
    from m obtain rest where
      hd: "?ps = (if Mode ?w = state_AESCBC then aescbcProvider (Key ?w)
                  else secretboxProvider (Key ?w)) # rest"
      by (auto simp: ak keyProviders_Cons keyProvider_def)
    have wk: "Key (writeKeyOf idKey [] ?ps) = Key ?w"
      unfolding hd using m by (auto simp: writeKeyOf_def switchProvider_simps)
    have "decodedKeys idKey [] ?ps = map unbacked (?kp ?ak) @ map unbacked (?id ?ak)"
      by (simp add: decodedKeys_simps decodedKey_identityProvider dk ds)
    with keys have "Key ` set (decodedKeys idKey [] ?ps) = Key ` set ?ak" by simp
    with enc wk show ?thesis by blast
  qed
qed

section \<open>Claims about the encoder\<close>

text \<open>
  C2. The claim: encode never aborts; a write key with an invalid mode that is the only
  key is skipped with a diagnostic and a provider list is still returned. The code does
  log the skipped key, but then reads \<^verbatim>\<open>providers[0]\<close> (line 191) of a slice that is
  still empty: the call panics.
\<close>

theorem stateToProviders_invalid_write_key_panics:
  "stateToProviders \<lparr>WriteKey = key4, ReadKeys = [key4]\<rparr>
     = (Inl IndexOutOfRange, [SkippingKey ''key-4'' (OtherMode ''bogus'')])"
  by (simp add: stateToProviders_def allKeys_def HasWriteKey_def zeroKeyState_def
      EqualKeyAndEqualID_def)

text \<open>
  C7. For every state without a write key, the provider list that encode produces starts
  with the no-op (identity) placeholder, both as the result of \<^verbatim>\<open>stateToProviders\<close>
  and as the provider list of the entry for \<open>r\<close> in the encoding of the map with the
  single entry \<open>r\<close>.
\<close>

theorem no_write_key_first_provider_is_noop:
  assumes "\<not> HasWriteKey S"
  shows "\<exists>ps lg. stateToProviders S = (Inr (identityProvider # ps), lg)
           \<and> FromEncryptionState [(r, S)] =
               (Inr [\<lparr>Resources = [GroupResource_String r],
                      Providers = identityProvider # ps\<rparr>], lg)"
proof -
  from assms obtain ps where
    ps: "stateToProviders S = (Inr (identityProvider # ps), skippedKeys (ReadKeys S))"
    using stateToProviders_no_write_key by blast
  then have "FromEncryptionState [(r, S)] =
       (Inr [\<lparr>Resources = [GroupResource_String r], Providers = identityProvider # ps\<rparr>],
        skippedKeys (ReadKeys S))"
    by (simp add: FromEncryptionState_def)
  with ps show ?thesis by blast
qed

theorem no_write_key_first_provider_is_noop_witness:
  "\<not> HasWriteKey \<lparr>WriteKey = zeroKeyState, ReadKeys = [key3]\<rparr>
   \<and> (\<exists>ps lg.
        stateToProviders \<lparr>WriteKey = zeroKeyState, ReadKeys = [key3]\<rparr>
          = (Inr (identityProvider # ps), lg)
        \<and> FromEncryptionState [(secretsGR, \<lparr>WriteKey = zeroKeyState, ReadKeys = [key3]\<rparr>)]
          = (Inr [\<lparr>Resources = [''secrets''], Providers = identityProvider # ps\<rparr>], lg))"
proof -
  have h: "\<not> HasWriteKey \<lparr>WriteKey = zeroKeyState, ReadKeys = [key3]\<rparr>"
    by simp
  show ?thesis
    using h no_write_key_first_provider_is_noop [OF h, of "secretsGR"]
    by (simp add: GroupResource_String_def)
qed

text \<open>
  C6, as the claim states it, fails in two ways. The loop of line 145 stops at the first
  key of the tail that equals the write key, so a second copy of the write key among the
  read keys stays, and the write key is walked, and emitted, twice. And a write key of
  identity mode is emitted as an AESGCM provider, which line 198 appends after all other
  providers: the first provider that carries a key then carries another key.
\<close>

theorem write_key_emitted_twice_or_later:
  "HasWriteKey \<lparr>WriteKey = key3, ReadKeys = [key3, key3]\<rparr>
   \<and> allKeys \<lparr>WriteKey = key3, ReadKeys = [key3, key3]\<rparr> = [key3, key3]
   \<and> stateToProviders \<lparr>WriteKey = key3, ReadKeys = [key3, key3]\<rparr>
     = (Inr [aescbcProvider (Key key3), aescbcProvider (Key key3), identityProvider], [])
   \<and> length (filter (carries (Key key3))
               [aescbcProvider (Key key3), aescbcProvider (Key key3), identityProvider]) = 2
   \<and> HasWriteKey \<lparr>WriteKey = key1, ReadKeys = [key3, key1]\<rparr>
   \<and> stateToProviders \<lparr>WriteKey = key1, ReadKeys = [key3, key1]\<rparr>
     = (Inr [identityProvider, aescbcProvider (Key key3), aesgcmProvider (Key key1)], [])
   \<and> \<not> carries (Key key1) identityProvider
   \<and> \<not> carries (Key key1) (aescbcProvider (Key key3))
   \<and> carries (Key key3) (aescbcProvider (Key key3))"
  by (simp add: stateToProviders_def allKeys_def HasWriteKey_def zeroKeyState_def
      EqualKeyAndEqualID_def aescbcProvider_def carries_def identityProvider_def)

text \<open>
  C6, amended. For every state with a write key, the key sequence that encode walks is the
  write key followed by the read keys without the first of them that equals the write key.
  The providers it emits follow that sequence. For a write key of mode AESCBC or
  SecretBox, encode returns a list whose first provider carries the write key, followed by
  the AESCBC and SecretBox providers of the rest of the sequence, the no-op placeholder
  and the AESGCM providers of the rest. For a write key of identity mode, encode returns
  the no-op placeholder first, then the AESCBC and SecretBox providers of the rest, then
  the AESGCM provider carrying the write key, which is the first of the AESGCM providers,
  then those of the rest. When at most one read key equals the write key, the sequence is
  the write key followed by the read keys that differ from it: the write key's identity
  occurs exactly once in it, no provider emitted for the rest carries the write key, and,
  when encode returns and the write key's mode is valid, exactly one emitted provider
  carries the write key.
\<close>

theorem write_key_walked_first:
  assumes "HasWriteKey S"
  shows "allKeys S = WriteKey S #
           takeWhile (\<lambda>k. \<not> EqualKeyAndEqualID k (WriteKey S)) (ReadKeys S)
           @ drop 1 (dropWhile (\<lambda>k. \<not> EqualKeyAndEqualID k (WriteKey S)) (ReadKeys S))
       \<and> (Mode (WriteKey S) = state_AESCBC \<longrightarrow>
            stateToProviders S =
              (Inr (aescbcProvider (Key (WriteKey S)) # keyProviders (tl (allKeys S))
                    @ identityProvider # sentinelProviders (tl (allKeys S))),
               skippedKeys (tl (allKeys S))))
       \<and> (Mode (WriteKey S) = state_SecretBox \<longrightarrow>
            stateToProviders S =
              (Inr (secretboxProvider (Key (WriteKey S)) # keyProviders (tl (allKeys S))
                    @ identityProvider # sentinelProviders (tl (allKeys S))),
               skippedKeys (tl (allKeys S))))
       \<and> (Mode (WriteKey S) = state_Identity \<longrightarrow>
            stateToProviders S =
              (Inr (identityProvider # keyProviders (tl (allKeys S))
                    @ aesgcmProvider (Key (WriteKey S)) # sentinelProviders (tl (allKeys S))),
               skippedKeys (tl (allKeys S)))
            \<and> filter (\<lambda>p. AESGCM p \<noteq> None)
                 (identityProvider # keyProviders (tl (allKeys S))
                  @ aesgcmProvider (Key (WriteKey S)) # sentinelProviders (tl (allKeys S)))
                = aesgcmProvider (Key (WriteKey S)) # sentinelProviders (tl (allKeys S)))
       \<and> (length (filter (\<lambda>k. EqualKeyAndEqualID k (WriteKey S)) (ReadKeys S)) \<le> 1 \<longrightarrow>
            allKeys S = WriteKey S #
              filter (\<lambda>k. \<not> EqualKeyAndEqualID k (WriteKey S)) (ReadKeys S)
            \<and> length (filter (\<lambda>k. EqualKeyAndEqualID k (WriteKey S)) (allKeys S)) = 1
            \<and> (\<forall>p\<in>set (keyProviders (tl (allKeys S)) @ sentinelProviders (tl (allKeys S))).
                  \<not> carries (Key (WriteKey S)) p)
            \<and> (\<forall>ps lg. stateToProviders S = (Inr ps, lg) \<and> validMode (Mode (WriteKey S))
                 \<longrightarrow> length (filter (carries (Key (WriteKey S))) ps) = 1))"
proof -
  let ?eq = "\<lambda>k. EqualKeyAndEqualID k (WriteKey S)"
  let ?K = "Key (WriteKey S)"
  let ?t = "filterWriteKey (WriteKey S) (ReadKeys S)"
  have ak: "allKeys S = WriteKey S # ?t"
    using assms by (simp add: allKeys_def)
  then have t: "tl (allKeys S) = ?t" by simp
  have 1: "allKeys S = WriteKey S # takeWhile (\<lambda>k. \<not> ?eq k) (ReadKeys S)
           @ drop 1 (dropWhile (\<lambda>k. \<not> ?eq k) (ReadKeys S))"
    unfolding ak filterWriteKey_eq ..
  have 2: "stateToProviders S =
      (Inr (aescbcProvider ?K # keyProviders ?t @ identityProvider # sentinelProviders ?t),
       skippedKeys ?t)" if "Mode (WriteKey S) = state_AESCBC"
    using that by (simp add: stateToProviders_first_key [OF assms] ak skippedKeys_Cons_valid
        validMode_def)
  have 3: "stateToProviders S =
      (Inr (secretboxProvider ?K # keyProviders ?t @ identityProvider # sentinelProviders ?t),
       skippedKeys ?t)" if "Mode (WriteKey S) = state_SecretBox"
    using that by (simp add: stateToProviders_first_key [OF assms] ak skippedKeys_Cons_valid
        validMode_def)
  have 4: "stateToProviders S =
      (Inr (identityProvider # keyProviders ?t @ aesgcmProvider ?K # sentinelProviders ?t),
       skippedKeys ?t)" if "Mode (WriteKey S) = state_Identity"
    using that by (simp add: stateToProviders_first_key [OF assms] ak skippedKeys_Cons_valid
        validMode_def)
  have 5: "filter (\<lambda>p. AESGCM p \<noteq> None)
        (identityProvider # keyProviders ?t @ aesgcmProvider ?K # sentinelProviders ?t)
      = aesgcmProvider ?K # sentinelProviders ?t"
    unfolding filter.simps filter_append AESGCM_keyProviders AESGCM_sentinelProviders
    by (simp add: identityProvider_def aesgcmProvider_def)
  have 6: "allKeys S = WriteKey S # filter (\<lambda>k. \<not> ?eq k) (ReadKeys S)
       \<and> length (filter ?eq (allKeys S)) = 1
       \<and> (\<forall>p\<in>set (keyProviders ?t @ sentinelProviders ?t). \<not> carries ?K p)
       \<and> (\<forall>ps lg. stateToProviders S = (Inr ps, lg) \<and> validMode (Mode (WriteKey S))
                 \<longrightarrow> length (filter (carries ?K) ps) = 1)"
    if le: "length (filter ?eq (ReadKeys S)) \<le> 1"
  proof -
    have f: "?t = filter (\<lambda>k. \<not> ?eq k) (ReadKeys S)"
      using le by (rule filterWriteKey_filter)
    have a: "allKeys S = WriteKey S # filter (\<lambda>k. \<not> ?eq k) (ReadKeys S)"
      using ak f by simp
    have b: "length (filter ?eq (allKeys S)) = 1"
      unfolding a by (simp add: EqualKeyAndEqualID_Key)
    have n: "\<forall>k\<in>set ?t. Key k \<noteq> ?K"
      unfolding f by (simp add: EqualKeyAndEqualID_Key)
    have "filter (carries ?K) (keyProviders ?t @ sentinelProviders ?t) = []"
      using n carries_keyProviders [of ?K ?t] carries_sentinelProviders [of ?K ?t]
      by (simp add: filter_empty_conv)
    then have c: "\<forall>p\<in>set (keyProviders ?t @ sentinelProviders ?t). \<not> carries ?K p"
      by (auto simp: filter_empty_conv)
    have d: "length (filter (carries ?K) ps) = 1"
      if "stateToProviders S = (Inr ps, lg)" "validMode (Mode (WriteKey S))" for ps lg
      using that(1) assms that(2) n by (rule carried_once)
    from a b c d show ?thesis by blast
  qed
  from 1 2 3 4 5 6 show ?thesis unfolding t by blast
qed

theorem write_key_walked_first_witness:
  "HasWriteKey
     \<lparr>WriteKey = key3,
      ReadKeys = [key3\<lparr>Backed := True\<rparr>, key2\<lparr>Backed := True\<rparr>, key1]\<rparr>
   \<and> allKeys
     \<lparr>WriteKey = key3,
      ReadKeys = [key3\<lparr>Backed := True\<rparr>, key2\<lparr>Backed := True\<rparr>, key1]\<rparr>
     = [key3, key2\<lparr>Backed := True\<rparr>, key1]
   \<and> stateToProviders
     \<lparr>WriteKey = key3,
      ReadKeys = [key3\<lparr>Backed := True\<rparr>, key2\<lparr>Backed := True\<rparr>, key1]\<rparr>
     = (Inr [aescbcProvider (Key key3), secretboxProvider (Key key2), identityProvider,
             aesgcmProvider (Key key1)], [])
   \<and> length (filter (carries (Key key3))
               [aescbcProvider (Key key3), secretboxProvider (Key key2), identityProvider,
                aesgcmProvider (Key key1)]) = 1"
proof -
  let ?S = "\<lparr>WriteKey = key3,
      ReadKeys = [key3\<lparr>Backed := True\<rparr>, key2\<lparr>Backed := True\<rparr>, key1]\<rparr>"
  let ?ps = "[aescbcProvider (Key key3), secretboxProvider (Key key2), identityProvider,
              aesgcmProvider (Key key1)]"
  have h: "HasWriteKey ?S" by (simp add: zeroKeyState_def)
  have le: "length (filter (\<lambda>k. EqualKeyAndEqualID k (WriteKey ?S)) (ReadKeys ?S)) \<le> 1"
    by (simp add: EqualKeyAndEqualID_def)
  have m: "Mode (WriteKey ?S) = state_AESCBC" by simp
  have v: "validMode (Mode (WriteKey ?S))" by (simp add: validMode_def)
  note T = write_key_walked_first [OF h]
  from T le have ak: "allKeys ?S = [key3, key2\<lparr>Backed := True\<rparr>, key1]"
    by (simp add: EqualKeyAndEqualID_def)
  from T m have "stateToProviders ?S =
      (Inr (aescbcProvider (Key (WriteKey ?S)) # keyProviders (tl (allKeys ?S))
            @ identityProvider # sentinelProviders (tl (allKeys ?S))),
       skippedKeys (tl (allKeys ?S)))"
    by blast
  then have enc: "stateToProviders ?S = (Inr ?ps, [])"
    unfolding ak
    by (simp add: keyProviders_def keyProvider_def sentinelProviders_def skippedKeys_def
        validMode_def)
  from T le enc v have "length (filter (carries (Key (WriteKey ?S))) ?ps) = 1"
    by blast
  then have c: "length (filter (carries (Key key3)) ?ps) = 1" by simp
  from h ak enc c show ?thesis by (intro conjI)
qed

text \<open>
  C5, as the claim states it, fails: the provider that encode emits for a key of identity
  mode carries the key as it is (line 181), with the key's own secret. For an identity key
  whose secret is not the sentinel, no emitted provider carries the sentinel.
\<close>

theorem identity_key_keeps_its_secret:
  "key1x \<in> set (ReadKeys \<lparr>WriteKey = zeroKeyState, ReadKeys = [key1x]\<rparr>)
   \<and> Mode key1x = state_Identity
   \<and> stateToProviders \<lparr>WriteKey = zeroKeyState, ReadKeys = [key1x]\<rparr>
     = (Inr [identityProvider, identityProvider,
             aesgcmProvider \<lparr>Name = ''key-1'', Secret = ''czE=''\<rparr>], [])
   \<and> aesgcmProvider \<lparr>Name = ''key-1'', Secret = sentinel\<rparr>
       \<notin> set [identityProvider, identityProvider,
               aesgcmProvider \<lparr>Name = ''key-1'', Secret = ''czE=''\<rparr>]
   \<and> switchProvider sentinel (aesgcmProvider \<lparr>Name = ''key-1'', Secret = ''czE=''\<rparr>)
       = ContinueInvalid"
  by (simp add: stateToProviders_def allKeys_def HasWriteKey_def identityProvider_def
      aesgcmProvider_def switchProvider_def singleKey_def)

text \<open>
  C5, amended. For every state on which encode returns and every key of identity mode
  among its read keys (if that key equals the write key, the write key being of identity
  mode too), the encoded provider list contains an AESGCM provider whose single key is
  that key, with the key's name and the key's own secret. When that secret is the
  sentinel, the switch of the decoder turns the provider into a key state of identity mode
  with the original name, and the decoding of a resource entry with this provider list,
  with no persisted record, has that key state among its read keys.
\<close>

theorem identity_key_encoded_as_aesgcm:
  assumes ps: "stateToProviders S = (Inr ps, lg)"
    and k: "k \<in> set (ReadKeys S)" and m: "Mode k = state_Identity"
    and w: "HasWriteKey S \<and> EqualKeyAndEqualID k (WriteKey S)
              \<longrightarrow> Mode (WriteKey S) = state_Identity"
  shows "aesgcmProvider (Key k) \<in> set ps
     \<and> (Secret (Key k) = idKey \<longrightarrow>
          switchProvider idKey (aesgcmProvider (Key k)) =
            Set \<lparr>Key = Key k, Mode = state_Identity, Backed = False\<rparr>
          \<and> (\<exists>out backedKeys lg' g.
                ToEncryptionState toKeyState keyID idKey
                  (Some [\<lparr>Resources = [res], Providers = ps\<rparr>]) [] = ((out, backedKeys), lg')
                \<and> out (ParseGroupResource res) = Some g
                \<and> \<lparr>Key = Key k, Mode = state_Identity, Backed = False\<rparr> \<in> set (ReadKeys g)))"
proof -
  have "\<exists>k'\<in>set (allKeys S). Mode k' = state_Identity \<and> Key k' = Key k"
  proof (cases "HasWriteKey S")
    case False
    with k m show ?thesis by (auto simp: allKeys_def)
  next
    case True
    show ?thesis
    proof (cases "EqualKeyAndEqualID k (WriteKey S)")
      case eq: True
      with True w have "Mode (WriteKey S) = state_Identity" by simp
      moreover from eq have "Key (WriteKey S) = Key k" by (simp add: EqualKeyAndEqualID_Key)
      ultimately show ?thesis using True by (auto simp: allKeys_def)
    next
      case False
      with k have "k \<in> set (filterWriteKey (WriteKey S) (ReadKeys S))"
        by (rule filterWriteKey_keeps)
      with True m show ?thesis by (auto simp: allKeys_def)
    qed
  qed
  then obtain k' where "k' \<in> set (allKeys S)" "Mode k' = state_Identity" "Key k' = Key k"
    by blast
  then have "aesgcmProvider (Key k) \<in> set (sentinelProviders (allKeys S))"
    using sentinelProviders_member [of k' "allKeys S"] by simp
  with ps have in_ps: "aesgcmProvider (Key k) \<in> set ps"
    using sentinelProviders_suffix by blast
  have dec: "\<lparr>Key = Key k, Mode = state_Identity, Backed = False\<rparr>
      \<in> set (ReadKeys (grStateOf idKey keyID [] ps))" if "Secret (Key k) = idKey"
    using decodedKey_subset [OF in_ps, of idKey "[]"] that
    by (simp add: grStateOf_def set_SortRecentFirst decodedKey_def switchProvider_simps)
  show ?thesis
    using in_ps dec by (simp add: switchProvider_simps ToEncryptionState_single)
qed

theorem identity_key_encoded_as_aesgcm_witness:
  "stateToProviders \<lparr>WriteKey = key1, ReadKeys = [key3, key1]\<rparr>
     = (Inr [identityProvider, aescbcProvider (Key key3), aesgcmProvider (Key key1)], [])
   \<and> aesgcmProvider (Key key1)
       \<in> set [identityProvider, aescbcProvider (Key key3), aesgcmProvider (Key key1)]
   \<and> switchProvider sentinel (aesgcmProvider (Key key1)) = Set key1
   \<and> (\<exists>out backedKeys lg' g.
         ToEncryptionState sampleToKeyState sampleKeyID sentinel
           (Some [\<lparr>Resources = [''secrets''],
                   Providers = [identityProvider, aescbcProvider (Key key3),
                                aesgcmProvider (Key key1)]\<rparr>]) []
           = ((out, backedKeys), lg')
         \<and> out secretsGR = Some g \<and> key1 \<in> set (ReadKeys g))"
proof -
  let ?S = "\<lparr>WriteKey = key1, ReadKeys = [key3, key1]\<rparr>"
  let ?ps = "[identityProvider, aescbcProvider (Key key3), aesgcmProvider (Key key1)]"
  have enc: "stateToProviders ?S = (Inr ?ps, [])"
    by (simp add: stateToProviders_def allKeys_def zeroKeyState_def EqualKeyAndEqualID_def
        identityProvider_def)
  have k: "key1 \<in> set (ReadKeys ?S)" and m: "Mode key1 = state_Identity"
    and w: "HasWriteKey ?S \<and> EqualKeyAndEqualID key1 (WriteKey ?S)
              \<longrightarrow> Mode (WriteKey ?S) = state_Identity"
    by simp_all
  have p: "ParseGroupResource ''secrets'' = secretsGR"
    by (simp add: ParseGroupResource_def)
  from identity_key_encoded_as_aesgcm [OF enc k m w, of sentinel sampleToKeyState
      sampleKeyID "''secrets''"] enc p
  show ?thesis by simp
qed

text \<open>
  C8. When no entry of the resource map makes \<^verbatim>\<open>stateToProviders\<close> panic, encode
  returns a wire configuration whose entries are sorted by their resource identifier
  string: each entry names exactly one resource, and the identifiers, in the order of the
  entries, are the sorted identifiers of the map, whatever the order in which the map was
  visited. When the identifiers of the map are distinct, every other order of visiting the
  same entries yields the same wire configuration.
\<close>

theorem FromEncryptionState_sorted:
  assumes "\<forall>e\<in>set encryptionState. \<not> panics (snd e)"
  shows "\<exists>cfg lg. FromEncryptionState encryptionState = (Inr cfg, lg)
       \<and> sorted (map (\<lambda>rc. hd (Resources rc)) cfg)
       \<and> map Resources cfg =
           map (\<lambda>s. [s]) (sort (map (\<lambda>e. GroupResource_String (fst e)) encryptionState))
       \<and> (distinct (map (\<lambda>e. GroupResource_String (fst e)) encryptionState) \<longrightarrow>
            (\<forall>other. mset other = mset encryptionState \<longrightarrow>
               fst (FromEncryptionState other) = Inr cfg))"
proof -
  let ?f = "\<lambda>rc. hd (Resources rc)"
  let ?m = encryptionState
  define cfg where "cfg = sort_key ?f (map resourceConfigOf ?m)"
  from assms have nopanic: "\<not> (\<exists>e\<in>set ?m. panics (snd e))" by simp
  then have "fst (FromEncryptionState ?m) = Inr cfg"
    by (simp add: FromEncryptionState_fst cfg_def)
  then obtain lg where ret: "FromEncryptionState ?m = (Inr cfg, lg)"
    by (cases "FromEncryptionState ?m") simp
  have s: "sorted (map ?f cfg)" by (simp add: cfg_def)
  have "\<forall>rc\<in>set cfg. Resources rc = [?f rc]"
    using Resources_resourceConfigOf [of _ ?m] by (simp add: cfg_def)
  then have "map Resources cfg = map (\<lambda>s. [s]) (map ?f cfg)"
    by simp
  also have "map ?f cfg = sort (map (\<lambda>e. GroupResource_String (fst e)) ?m)"
    unfolding cfg_def sort_key_map_key hd_Resources_resourceConfigOf ..
  finally have ids: "map Resources cfg =
           map (\<lambda>s. [s]) (sort (map (\<lambda>e. GroupResource_String (fst e)) ?m))" .
  have "fst (FromEncryptionState other) = Inr cfg"
    if ms: "mset other = mset ?m"
      and d: "distinct (map (\<lambda>e. GroupResource_String (fst e)) ?m)" for other
  proof -
    from ms have seteq: "set other = set ?m" by (rule mset_eq_setD)
    have inj: "inj_on ?f (set (map resourceConfigOf other))"
    proof (rule inj_onI)
      fix x y
      assume x: "x \<in> set (map resourceConfigOf other)"
        and y: "y \<in> set (map resourceConfigOf other)" and xy: "?f x = ?f y"
      from x seteq obtain a where a: "a \<in> set ?m" "x = resourceConfigOf a" by auto
      from y seteq obtain b where b: "b \<in> set ?m" "y = resourceConfigOf b" by auto
      from xy a b have "GroupResource_String (fst a) = GroupResource_String (fst b)"
        by (simp add: resourceConfigOf_def)
      with d a(1) b(1) have "a = b"
        by (meson distinct_map inj_onD)
      with a b show "x = y" by simp
    qed
    have "mset (map resourceConfigOf other) = mset cfg"
      using ms by (simp add: cfg_def)
    then have "sort_key ?f (map resourceConfigOf other) = cfg"
      using inj s by (rule sort_key_inj_key_eq)
    with nopanic seteq show ?thesis
      by (simp add: FromEncryptionState_fst)
  qed
  with ret s ids show ?thesis by blast
qed

theorem FromEncryptionState_sorted_witness:
  "\<not> panics \<lparr>WriteKey = key3, ReadKeys = [key3]\<rparr>
   \<and> \<not> panics \<lparr>WriteKey = zeroKeyState, ReadKeys = []\<rparr>
   \<and> (\<exists>cfg lg.
        FromEncryptionState
          [(secretsGR, \<lparr>WriteKey = key3, ReadKeys = [key3]\<rparr>),
           (\<lparr>Group = ''apps'', Resource = ''deployments''\<rparr>,
            \<lparr>WriteKey = zeroKeyState, ReadKeys = []\<rparr>)] = (Inr cfg, lg)
        \<and> map Resources cfg = [[''deployments.apps''], [''secrets'']]
        \<and> fst (FromEncryptionState
             [(\<lparr>Group = ''apps'', Resource = ''deployments''\<rparr>,
               \<lparr>WriteKey = zeroKeyState, ReadKeys = []\<rparr>),
              (secretsGR, \<lparr>WriteKey = key3, ReadKeys = [key3]\<rparr>)]) = Inr cfg)"
proof -
  let ?A = "\<lparr>WriteKey = key3, ReadKeys = [key3]\<rparr>"
  let ?B = "\<lparr>WriteKey = zeroKeyState, ReadKeys = []\<rparr>"
  let ?apps = "\<lparr>Group = ''apps'', Resource = ''deployments''\<rparr>"
  have a: "\<not> panics ?A"
    by (simp add: panics_def stateToProviders_def allKeys_def zeroKeyState_def
        EqualKeyAndEqualID_def)
  have b: "\<not> panics ?B"
    by (simp add: panics_def stateToProviders_def allKeys_def)
  from a b have h: "\<forall>e\<in>set [(secretsGR, ?A), (?apps, ?B)]. \<not> panics (snd e)" by simp
  have d: "distinct (map (\<lambda>e. GroupResource_String (fst e)) [(secretsGR, ?A), (?apps, ?B)])"
    by (simp add: GroupResource_String_def)
  have m: "mset [(?apps, ?B), (secretsGR, ?A)] = mset [(secretsGR, ?A), (?apps, ?B)]"
    by simp
  have srt: "sort (map (\<lambda>e. GroupResource_String (fst e)) [(secretsGR, ?A), (?apps, ?B)])
      = [''deployments.apps'', ''secrets'']"
    by (simp add: GroupResource_String_def)
  from FromEncryptionState_sorted [OF h] obtain cfg lg where
    "FromEncryptionState [(secretsGR, ?A), (?apps, ?B)] = (Inr cfg, lg)"
    "map Resources cfg =
       map (\<lambda>s. [s]) (sort (map (\<lambda>e. GroupResource_String (fst e))
                              [(secretsGR, ?A), (?apps, ?B)]))"
    "distinct (map (\<lambda>e. GroupResource_String (fst e)) [(secretsGR, ?A), (?apps, ?B)]) \<longrightarrow>
       (\<forall>other. mset other = mset [(secretsGR, ?A), (?apps, ?B)] \<longrightarrow>
          fst (FromEncryptionState other) = Inr cfg)"
    by blast
  with d m srt have
    "FromEncryptionState [(secretsGR, ?A), (?apps, ?B)] = (Inr cfg, lg)
     \<and> map Resources cfg = [[''deployments.apps''], [''secrets'']]
     \<and> fst (FromEncryptionState [(?apps, ?B), (secretsGR, ?A)]) = Inr cfg"
    by simp
  then have "\<exists>cfg lg.
     FromEncryptionState [(secretsGR, ?A), (?apps, ?B)] = (Inr cfg, lg)
     \<and> map Resources cfg = [[''deployments.apps''], [''secrets'']]
     \<and> fst (FromEncryptionState [(?apps, ?B), (secretsGR, ?A)]) = Inr cfg"
    by (intro exI)
  with a b show ?thesis by (intro conjI)
qed

section \<open>Claims about the decoder\<close>

text \<open>
  C9. For every list of persisted records, decoding with a nil wire configuration returns
  the empty resource map together with the backed keys. The backed keys are, as a
  multiset, the key states of the records that parse, each with \<^verbatim>\<open>Backed\<close> set; a
  record that does not parse adds a warning to the log and nothing else; and the list of
  backed keys is sorted most recent first.
\<close>

theorem ToEncryptionState_nil_config:
  "\<exists>backedKeys.
     ToEncryptionState toKeyState keyID idKey None keySecrets =
       ((Map.empty, backedKeys), secretWarnings toKeyState keySecrets)
     \<and> mset backedKeys = mset (parsedSecrets toKeyState keySecrets)
     \<and> (\<forall>k\<in>set backedKeys. Backed k)
     \<and> recentFirst keyID backedKeys"
  using parsedSecrets_Backed [of toKeyState keySecrets]
  by (simp add: ToEncryptionState_def backedKeysLoop_eq mset_SortRecentFirst
      set_SortRecentFirst recentFirst_SortRecentFirst)

theorem ToEncryptionState_nil_config_witness:
  "ToEncryptionState sampleToKeyState sampleKeyID sentinel None [Some key1, None, Some key3]
     = ((Map.empty, [key3\<lparr>Backed := True\<rparr>, key1\<lparr>Backed := True\<rparr>]),
        [SkippingInvalidSecret ''no key''])
   \<and> parsedSecrets sampleToKeyState [Some key1, None, Some key3]
     = [key1\<lparr>Backed := True\<rparr>, key3\<lparr>Backed := True\<rparr>]
   \<and> recentFirst sampleKeyID [key3\<lparr>Backed := True\<rparr>, key1\<lparr>Backed := True\<rparr>]"
proof -
  have p: "parsedSecrets sampleToKeyState [Some key1, None, Some key3]
     = [key1\<lparr>Backed := True\<rparr>, key3\<lparr>Backed := True\<rparr>]"
    by (simp add: parsedSecrets_def sampleToKeyState_def)
  have e: "ToEncryptionState sampleToKeyState sampleKeyID sentinel None
      [Some key1, None, Some key3]
     = ((Map.empty, [key3\<lparr>Backed := True\<rparr>, key1\<lparr>Backed := True\<rparr>]),
        [SkippingInvalidSecret ''no key''])"
    by (simp add: ToEncryptionState_def backedKeysLoop_eq parsedSecrets_def
        secretWarnings_def sampleToKeyState_def SortRecentFirst_def sampleKeyID_def)
  from ToEncryptionState_nil_config [of sampleToKeyState sampleKeyID sentinel
      "[Some key1, None, Some key3]"] e p
  show ?thesis by auto
qed

text \<open>
  C10. A provider whose only populated variant is AESGCM, with exactly one key whose
  secret is not the sentinel, reaches the default case of the switch: the loop logs the
  provider's index and the resource and goes on with the state unchanged, so the provider
  contributes no key state. A resource entry that holds only such a provider decodes to a
  state with no write key and no read key.
\<close>

theorem aesgcm_without_sentinel_is_skipped:
  assumes "AESGCM provider = Some [k]" and "Secret k \<noteq> idKey"
    and "AESCBC provider = None" and "Secretbox provider = None" and "Identity provider = None"
  shows "switchProvider idKey provider = ContinueInvalid
     \<and> providersLoop idKey backedKeys res i (provider # providers) grState lg =
         providersLoop idKey backedKeys res (Suc i) providers grState
           (lg @ [SkippingInvalidProvider i res])
     \<and> ToEncryptionState toKeyState keyID idKey
         (Some [\<lparr>Resources = [res], Providers = [provider]\<rparr>]) [] =
         (([ParseGroupResource res \<mapsto> \<lparr>WriteKey = zeroKeyState, ReadKeys = []\<rparr>], []),
          [SkippingInvalidProvider 0 res])"
proof -
  from assms have sw: "switchProvider idKey provider = ContinueInvalid"
    by (simp add: switchProvider_def singleKey_def)
  then show ?thesis
    by (simp add: ToEncryptionState_def SortRecentFirst_def)
qed

theorem aesgcm_without_sentinel_is_skipped_witness:
  "Secret \<lparr>Name = ''key-9'', Secret = ''czk=''\<rparr> \<noteq> sentinel
   \<and> switchProvider sentinel (aesgcmProvider \<lparr>Name = ''key-9'', Secret = ''czk=''\<rparr>)
       = ContinueInvalid
   \<and> ToEncryptionState sampleToKeyState sampleKeyID sentinel
       (Some [\<lparr>Resources = [''secrets''],
               Providers = [aesgcmProvider \<lparr>Name = ''key-9'', Secret = ''czk=''\<rparr>]\<rparr>]) []
     = (([secretsGR \<mapsto> \<lparr>WriteKey = zeroKeyState, ReadKeys = []\<rparr>], []),
        [SkippingInvalidProvider 0 ''secrets''])"
proof -
  let ?k = "\<lparr>Name = ''key-9'', Secret = ''czk=''\<rparr>"
  have 1: "AESGCM (aesgcmProvider ?k) = Some [?k]" and 2: "Secret ?k \<noteq> sentinel"
    and 3: "AESCBC (aesgcmProvider ?k) = None" and 4: "Secretbox (aesgcmProvider ?k) = None"
    and 5: "Identity (aesgcmProvider ?k) = None"
    by (simp_all add: aesgcmProvider_def)
  have p: "ParseGroupResource ''secrets'' = secretsGR"
    by (simp add: ParseGroupResource_def)
  from aesgcm_without_sentinel_is_skipped [OF 1 2 3 4 5,
      where toKeyState = sampleToKeyState and keyID = sampleKeyID and res = "''secrets''"] p 2
  show ?thesis by simp
qed

text \<open>
  C3, as the claim states it, fails: the write key is also taken from a later key of
  identity mode when position 0 held an invalid provider, which is skipped as well. Here
  position 0 holds an AESGCM provider with a key that is not the sentinel (no placeholder,
  and no key is decoded from it), and the sentinel provider at position 1 becomes the
  write key.
\<close>

theorem write_key_after_invalid_provider:
  "Identity (aesgcmProvider \<lparr>Name = ''key-9'', Secret = ''czk=''\<rparr>) = None
   \<and> switchProvider sentinel (aesgcmProvider \<lparr>Name = ''key-9'', Secret = ''czk=''\<rparr>)
       = ContinueInvalid
   \<and> ToEncryptionState sampleToKeyState sampleKeyID sentinel
       (Some [\<lparr>Resources = [''secrets''],
               Providers = [aesgcmProvider \<lparr>Name = ''key-9'', Secret = ''czk=''\<rparr>,
                            aesgcmProvider (Key key1)]\<rparr>]) []
     = (([secretsGR \<mapsto> \<lparr>WriteKey = key1, ReadKeys = [key1]\<rparr>], []),
        [SkippingInvalidProvider 0 ''secrets''])
   \<and> HasWriteKey \<lparr>WriteKey = key1, ReadKeys = [key1]\<rparr>"
  by (simp add: ToEncryptionState_def SortRecentFirst_def switchProvider_simps
      ParseGroupResource_def zeroKeyState_def Let_def)
     (simp add: aesgcmProvider_def)

text \<open>
  C3, amended. In decode, for every valid resource entry (the last one stored under its
  group resource), the write key of the resulting state is: the key decoded at provider
  position 0, after the enrichment from the backed keys, when a key is decoded there;
  otherwise, position 0 having been skipped (the no-op placeholder or an invalid provider),
  the first key of identity mode decoded from the later positions; and the unset (zero)
  key state when there is no such key or no provider at all.
\<close>

theorem decode_write_key:
  assumes "Resources rc = [res]"
    and "\<forall>rc'\<in>set post. \<not> namesResource (ParseGroupResource res) rc'"
  shows "\<exists>out backedKeys lg g.
      ToEncryptionState toKeyState keyID idKey (Some (pre @ rc # post)) keySecrets =
        ((out, backedKeys), lg)
      \<and> out (ParseGroupResource res) = Some g
      \<and> WriteKey g =
          (case Providers rc of
             [] \<Rightarrow> zeroKeyState
           | p # rest \<Rightarrow>
               (case switchProvider idKey p of
                  Set ks \<Rightarrow> enrich backedKeys ks
                | _ \<Rightarrow> firstIdentity (decodedKeys idKey backedKeys rest) zeroKeyState))"
proof -
  let ?bk = "SortRecentFirst keyID (parsedSecrets toKeyState keySecrets)"
  have bk: "\<forall>k\<in>set ?bk. Backed k"
    using parsedSecrets_Backed by (simp add: set_SortRecentFirst)
  obtain out lg where l: "resourcesLoop idKey keyID ?bk (pre @ rc # post)
             Map.empty (secretWarnings toKeyState keySecrets) = (out, lg)"
    by (cases "resourcesLoop idKey keyID ?bk (pre @ rc # post)
             Map.empty (secretWarnings toKeyState keySecrets)")
  have "out (ParseGroupResource res) = Some (grStateOf idKey keyID ?bk (Providers rc))"
    using resourcesLoop_last_entry [OF bk assms, of idKey keyID pre Map.empty
        "secretWarnings toKeyState keySecrets"] l by simp
  moreover have "WriteKey (grStateOf idKey keyID ?bk (Providers rc)) =
      writeKeyOf idKey ?bk (Providers rc)"
    by (simp add: grStateOf_def)
  ultimately show ?thesis
    by (simp add: ToEncryptionState_Some l writeKeyOf_def)
qed

theorem decode_write_key_witness:
  "Resources \<lparr>Resources = [''secrets''],
              Providers = [identityProvider, aescbcProvider (Key key3),
                           aesgcmProvider (Key key1)]\<rparr> = [''secrets'']
   \<and> (\<exists>out backedKeys lg g.
        ToEncryptionState sampleToKeyState sampleKeyID sentinel
          (Some [\<lparr>Resources = [''secrets''],
                  Providers = [identityProvider, aescbcProvider (Key key3),
                               aesgcmProvider (Key key1)]\<rparr>]) [Some key1]
          = ((out, backedKeys), lg)
        \<and> out secretsGR = Some g
        \<and> WriteKey g = key1\<lparr>Backed := True\<rparr>)"
proof -
  let ?rc = "\<lparr>Resources = [''secrets''],
              Providers = [identityProvider, aescbcProvider (Key key3),
                           aesgcmProvider (Key key1)]\<rparr>"
  have r: "Resources ?rc = [''secrets'']" by simp
  have n: "\<forall>rc'\<in>set []. \<not> namesResource (ParseGroupResource ''secrets'') rc'" by simp
  have p: "ParseGroupResource ''secrets'' = secretsGR"
    by (simp add: ParseGroupResource_def)
  have b: "ToEncryptionState sampleToKeyState sampleKeyID sentinel (Some [?rc]) [Some key1]
      = ((out, backedKeys), lg) \<Longrightarrow> backedKeys = [key1\<lparr>Backed := True\<rparr>]"
    for out backedKeys lg
    by (auto simp: ToEncryptionState_Some parsedSecrets_def sampleToKeyState_def
        SortRecentFirst_def split: prod.splits)
  from decode_write_key [OF r n, of sampleToKeyState sampleKeyID sentinel "[]" "[Some key1]"]
  obtain out backedKeys lg g where
    e: "ToEncryptionState sampleToKeyState sampleKeyID sentinel (Some [?rc]) [Some key1]
          = ((out, backedKeys), lg)"
    and o: "out (ParseGroupResource ''secrets'') = Some g"
    and k: "WriteKey g =
          (case Providers ?rc of
             [] \<Rightarrow> zeroKeyState
           | p # rest \<Rightarrow>
               (case switchProvider sentinel p of
                  Set ks \<Rightarrow> enrich backedKeys ks
                | _ \<Rightarrow> firstIdentity (decodedKeys sentinel backedKeys rest) zeroKeyState))"
    by auto
  from b [OF e] have bk: "backedKeys = [key1\<lparr>Backed := True\<rparr>]" .
  have "WriteKey g = key1\<lparr>Backed := True\<rparr>"
    unfolding k bk
    by (simp add: switchProvider_simps firstIdentity_def decodedKeys_def decodedKey_def
        EqualKeyAndEqualID_def)
  with e o p have "\<exists>out backedKeys lg g.
        ToEncryptionState sampleToKeyState sampleKeyID sentinel (Some [?rc]) [Some key1]
          = ((out, backedKeys), lg)
        \<and> out secretsGR = Some g
        \<and> WriteKey g = key1\<lparr>Backed := True\<rparr>"
    by (intro exI [of _ out] exI [of _ backedKeys] exI [of _ lg] exI [of _ g]) simp
  with r show ?thesis by (intro conjI)
qed

section \<open>Claims about encoding followed by decoding\<close>

subsection \<open>A state with a write key\<close>

text \<open>
  C1, as the claim states it, fails. A read key of identity mode whose secret is not the
  sentinel is encoded with its own secret and then dropped by the decoder as an invalid
  provider; a read key with an invalid mode is dropped by the encoder. In both cases the
  decoded state has fewer read key identities than the state encoded.
\<close>

theorem round_trip_loses_read_keys:
  "FromEncryptionState [(secretsGR, \<lparr>WriteKey = key3, ReadKeys = [key3, key1x]\<rparr>)]
     = (Inr [\<lparr>Resources = [''secrets''],
              Providers = [aescbcProvider (Key key3), identityProvider,
                           aesgcmProvider (Key key1x)]\<rparr>], [])
   \<and> ToEncryptionState sampleToKeyState sampleKeyID sentinel
       (Some [\<lparr>Resources = [''secrets''],
               Providers = [aescbcProvider (Key key3), identityProvider,
                            aesgcmProvider (Key key1x)]\<rparr>]) []
     = (([secretsGR \<mapsto> \<lparr>WriteKey = key3, ReadKeys = [key3]\<rparr>], []),
        [SkippingInvalidProvider 2 ''secrets''])
   \<and> Key ` set [key3] \<noteq> Key ` set [key3, key1x]
   \<and> FromEncryptionState [(secretsGR, \<lparr>WriteKey = key3, ReadKeys = [key3, key4]\<rparr>)]
     = (Inr [\<lparr>Resources = [''secrets''],
              Providers = [aescbcProvider (Key key3), identityProvider]\<rparr>],
        [SkippingKey ''key-4'' (OtherMode ''bogus'')])
   \<and> ToEncryptionState sampleToKeyState sampleKeyID sentinel
       (Some [\<lparr>Resources = [''secrets''],
               Providers = [aescbcProvider (Key key3), identityProvider]\<rparr>]) []
     = (([secretsGR \<mapsto> \<lparr>WriteKey = key3, ReadKeys = [key3]\<rparr>], []), [])
   \<and> Key ` set [key3] \<noteq> Key ` set [key3, key4]"
proof -
  have 1: "FromEncryptionState [(secretsGR, \<lparr>WriteKey = key3, ReadKeys = [key3, key1x]\<rparr>)]
     = (Inr [\<lparr>Resources = [''secrets''],
              Providers = [aescbcProvider (Key key3), identityProvider,
                           aesgcmProvider (Key key1x)]\<rparr>], [])"
    by (simp add: FromEncryptionState_def stateToProviders_def allKeys_def zeroKeyState_def
        EqualKeyAndEqualID_def GroupResource_String_def aescbcProvider_def)
  have 2: "ToEncryptionState sampleToKeyState sampleKeyID sentinel
       (Some [\<lparr>Resources = [''secrets''],
               Providers = [aescbcProvider (Key key3), identityProvider,
                            aesgcmProvider (Key key1x)]\<rparr>]) []
     = (([secretsGR \<mapsto> \<lparr>WriteKey = key3, ReadKeys = [key3]\<rparr>], []),
        [SkippingInvalidProvider 2 ''secrets''])"
    by (simp add: ToEncryptionState_single grStateOf_def writeKeyOf_def decodedKeys_def
        decodedKey_def switchProvider_simps SortRecentFirst_def ParseGroupResource_def)
  have 3: "FromEncryptionState [(secretsGR, \<lparr>WriteKey = key3, ReadKeys = [key3, key4]\<rparr>)]
     = (Inr [\<lparr>Resources = [''secrets''],
              Providers = [aescbcProvider (Key key3), identityProvider]\<rparr>],
        [SkippingKey ''key-4'' (OtherMode ''bogus'')])"
    by (simp add: FromEncryptionState_def stateToProviders_def allKeys_def zeroKeyState_def
        EqualKeyAndEqualID_def GroupResource_String_def aescbcProvider_def)
  have 4: "ToEncryptionState sampleToKeyState sampleKeyID sentinel
       (Some [\<lparr>Resources = [''secrets''],
               Providers = [aescbcProvider (Key key3), identityProvider]\<rparr>]) []
     = (([secretsGR \<mapsto> \<lparr>WriteKey = key3, ReadKeys = [key3]\<rparr>], []), [])"
    by (simp add: ToEncryptionState_single grStateOf_def writeKeyOf_def decodedKeys_def
        decodedKey_def switchProvider_simps SortRecentFirst_def ParseGroupResource_def)
  have 5: "Key ` set [key3] \<noteq> Key ` set [key3, key1x]"
    and 6: "Key ` set [key3] \<noteq> Key ` set [key3, key4]"
    by auto
  from 1 2 5 3 4 6 show ?thesis by (intro conjI)
qed

text \<open>
  C1, amended. For every state with a write key, all of whose keys (the write key and the
  read keys) have one of the three modes and, when of identity mode, the sentinel as
  their secret, whose write key is among its read keys (by identity), and for every group
  resource \<open>r\<close> whose resource name has no dot: encoding the map with the single entry
  \<open>r\<close> returns, and decoding the result with no persisted record yields a resource map
  whose entry for \<open>r\<close> has the write key identity (key name and secret) of the state and
  the same set of read key identities.
\<close>

theorem round_trip:
  assumes w: "HasWriteKey S"
    and v: "\<forall>k\<in>set (WriteKey S # ReadKeys S). encodable idKey k"
    and i: "Key (WriteKey S) \<in> Key ` set (ReadKeys S)"
    and d: "CHR ''.'' \<notin> set (Resource r)"
  shows "\<exists>cfg out backedKeys lg g.
      FromEncryptionState [(r, S)] = (Inr cfg, [])
      \<and> ToEncryptionState toKeyState keyID idKey (Some cfg) [] = ((out, backedKeys), lg)
      \<and> out r = Some g
      \<and> Key (WriteKey g) = Key (WriteKey S)
      \<and> Key ` set (ReadKeys g) = Key ` set (ReadKeys S)"
proof -
  from decode_encoded [OF w v] obtain ps where
    enc: "stateToProviders S = (Inr ps, [])"
    and wk: "Key (writeKeyOf idKey [] ps) = Key (WriteKey S)"
    and rk: "Key ` set (decodedKeys idKey [] ps) = Key ` set (allKeys S)"
    by blast
  let ?cfg = "[\<lparr>Resources = [GroupResource_String r], Providers = ps\<rparr>]"
  let ?g = "grStateOf idKey keyID [] ps"
  have 1: "FromEncryptionState [(r, S)] = (Inr ?cfg, [])"
    using enc by (simp add: FromEncryptionState_def)
  have 2: "ToEncryptionState toKeyState keyID idKey (Some ?cfg) [] =
      (([r \<mapsto> ?g], []), invalidProviders idKey (GroupResource_String r) 0 ps)"
    using ParseGroupResource_String [OF d] by (simp add: ToEncryptionState_single)
  have 3: "Key (WriteKey ?g) = Key (WriteKey S)"
    using wk by (simp add: grStateOf_def)
  have 4: "Key ` set (ReadKeys ?g) = Key ` set (ReadKeys S)"
    using rk Key_allKeys [OF w i] by (simp add: grStateOf_def set_SortRecentFirst)
  have "FromEncryptionState [(r, S)] = (Inr ?cfg, [])
      \<and> ToEncryptionState toKeyState keyID idKey (Some ?cfg) [] =
          (([r \<mapsto> ?g], []), invalidProviders idKey (GroupResource_String r) 0 ps)
      \<and> [r \<mapsto> ?g] r = Some ?g
      \<and> Key (WriteKey ?g) = Key (WriteKey S)
      \<and> Key ` set (ReadKeys ?g) = Key ` set (ReadKeys S)"
    using 1 2 3 4 by simp
  then show ?thesis by blast
qed

theorem round_trip_witness:
  "HasWriteKey \<lparr>WriteKey = key1, ReadKeys = [key3, key2, key1]\<rparr>
   \<and> encodable sentinel key1 \<and> encodable sentinel key2 \<and> encodable sentinel key3
   \<and> Key key1 \<in> Key ` set [key3, key2, key1]
   \<and> CHR ''.'' \<notin> set (Resource secretsGR)
   \<and> (\<exists>cfg out backedKeys lg g.
        FromEncryptionState
          [(secretsGR, \<lparr>WriteKey = key1, ReadKeys = [key3, key2, key1]\<rparr>)] = (Inr cfg, [])
        \<and> ToEncryptionState sampleToKeyState sampleKeyID sentinel (Some cfg) []
             = ((out, backedKeys), lg)
        \<and> out secretsGR = Some g
        \<and> Key (WriteKey g) = Key key1
        \<and> Key ` set (ReadKeys g) = {Key key1, Key key2, Key key3})"
proof -
  let ?S = "\<lparr>WriteKey = key1, ReadKeys = [key3, key2, key1]\<rparr>"
  have w: "HasWriteKey ?S" by (simp add: zeroKeyState_def)
  have e: "encodable sentinel key1" "encodable sentinel key2" "encodable sentinel key3"
    by (simp_all add: encodable_def validMode_def)
  then have v: "\<forall>k\<in>set (WriteKey ?S # ReadKeys ?S). encodable sentinel k" by simp
  have i: "Key (WriteKey ?S) \<in> Key ` set (ReadKeys ?S)" by simp
  have d: "CHR ''.'' \<notin> set (Resource secretsGR)" by simp
  have s: "Key ` set (ReadKeys ?S) = {Key key1, Key key2, Key key3}" by auto
  from round_trip [OF w v i d, of sampleToKeyState sampleKeyID] s
  have "\<exists>cfg out backedKeys lg g.
        FromEncryptionState [(secretsGR, ?S)] = (Inr cfg, [])
        \<and> ToEncryptionState sampleToKeyState sampleKeyID sentinel (Some cfg) []
             = ((out, backedKeys), lg)
        \<and> out secretsGR = Some g
        \<and> Key (WriteKey g) = Key key1
        \<and> Key ` set (ReadKeys g) = {Key key1, Key key2, Key key3}"
    by simp
  with w e i d show ?thesis by simp
qed

subsection \<open>The scenario of an identity read key and no write key\<close>

text \<open>
  C4, as the claim states it, fails. With the key \<open>k1\<close> carrying the sentinel as its
  secret, encode yields three providers, not two: the placeholder for the missing write
  key (line 153) and a second placeholder because the key at index 0 is of identity mode
  (line 175). Decoding that list, and also decoding the two-provider list of the claim,
  makes \<open>k1\<close> the write key: it is the first key of identity mode and no write key has
  been set. With an empty secret for \<open>k1\<close>, encode yields three providers as well, the
  third with the empty secret.
\<close>

theorem identity_read_key_scenario_differs:
  "stateToProviders \<lparr>WriteKey = zeroKeyState, ReadKeys = [scenarioKey]\<rparr>
     = (Inr [identityProvider, identityProvider, aesgcmProvider (Key scenarioKey)], [])
   \<and> [identityProvider, identityProvider, aesgcmProvider (Key scenarioKey)]
       \<noteq> [identityProvider, aesgcmProvider (Key scenarioKey)]
   \<and> ToEncryptionState sampleToKeyState sampleKeyID sentinel
       (Some [\<lparr>Resources = [''secrets''],
               Providers = [identityProvider, identityProvider,
                            aesgcmProvider (Key scenarioKey)]\<rparr>]) []
     = (([secretsGR \<mapsto> \<lparr>WriteKey = scenarioKey, ReadKeys = [scenarioKey]\<rparr>], []), [])
   \<and> ToEncryptionState sampleToKeyState sampleKeyID sentinel
       (Some [\<lparr>Resources = [''secrets''],
               Providers = [identityProvider, aesgcmProvider (Key scenarioKey)]\<rparr>]) []
     = (([secretsGR \<mapsto> \<lparr>WriteKey = scenarioKey, ReadKeys = [scenarioKey]\<rparr>], []), [])
   \<and> HasWriteKey \<lparr>WriteKey = scenarioKey, ReadKeys = [scenarioKey]\<rparr>
   \<and> stateToProviders
       \<lparr>WriteKey = zeroKeyState,
        ReadKeys = [\<lparr>Key = \<lparr>Name = ''k1'', Secret = []\<rparr>, Mode = state_Identity,
                     Backed = False\<rparr>]\<rparr>
     = (Inr [identityProvider, identityProvider,
             aesgcmProvider \<lparr>Name = ''k1'', Secret = []\<rparr>], [])"
proof -
  have 1: "stateToProviders \<lparr>WriteKey = zeroKeyState, ReadKeys = [scenarioKey]\<rparr>
     = (Inr [identityProvider, identityProvider, aesgcmProvider (Key scenarioKey)], [])"
    by (simp add: stateToProviders_def allKeys_def identityProvider_def)
  have 2: "[identityProvider, identityProvider, aesgcmProvider (Key scenarioKey)]
       \<noteq> [identityProvider, aesgcmProvider (Key scenarioKey)]"
    by simp
  have 3: "ToEncryptionState sampleToKeyState sampleKeyID sentinel
       (Some [\<lparr>Resources = [''secrets''],
               Providers = [identityProvider, identityProvider,
                            aesgcmProvider (Key scenarioKey)]\<rparr>]) []
     = (([secretsGR \<mapsto> \<lparr>WriteKey = scenarioKey, ReadKeys = [scenarioKey]\<rparr>], []), [])"
    by (simp add: ToEncryptionState_single grStateOf_def writeKeyOf_def decodedKeys_def
        decodedKey_def switchProvider_simps SortRecentFirst_def ParseGroupResource_def
        firstIdentity_def)
  have 4: "ToEncryptionState sampleToKeyState sampleKeyID sentinel
       (Some [\<lparr>Resources = [''secrets''],
               Providers = [identityProvider, aesgcmProvider (Key scenarioKey)]\<rparr>]) []
     = (([secretsGR \<mapsto> \<lparr>WriteKey = scenarioKey, ReadKeys = [scenarioKey]\<rparr>], []), [])"
    by (simp add: ToEncryptionState_single grStateOf_def writeKeyOf_def decodedKeys_def
        decodedKey_def switchProvider_simps SortRecentFirst_def ParseGroupResource_def
        firstIdentity_def)
  have 5: "HasWriteKey \<lparr>WriteKey = scenarioKey, ReadKeys = [scenarioKey]\<rparr>"
    by (simp add: zeroKeyState_def)
  have 6: "stateToProviders
       \<lparr>WriteKey = zeroKeyState,
        ReadKeys = [\<lparr>Key = \<lparr>Name = ''k1'', Secret = []\<rparr>, Mode = state_Identity,
                     Backed = False\<rparr>]\<rparr>
     = (Inr [identityProvider, identityProvider,
             aesgcmProvider \<lparr>Name = ''k1'', Secret = []\<rparr>], [])"
    by (simp add: stateToProviders_def allKeys_def identityProvider_def)
  from 1 2 3 4 5 6 show ?thesis by (intro conjI)
qed

text \<open>
  C4, amended. For the resource \<open>secrets\<close> with no write key and the single read key
  \<open>k1\<close> of identity mode that carries the sentinel as its secret, encode produces exactly
  the provider list of the no-op placeholder, the no-op placeholder again, and the AESGCM
  provider carrying \<open>k1\<close> with the sentinel; decoding that output yields, for
  \<open>secrets\<close>, the state whose write key is \<open>k1\<close> with identity mode and whose read keys
  are \<open>k1\<close> with identity mode alone.
\<close>

theorem identity_read_key_scenario:
  "FromEncryptionState
     [(secretsGR,
       \<lparr>WriteKey = zeroKeyState,
        ReadKeys = [\<lparr>Key = \<lparr>Name = ''k1'', Secret = idKey\<rparr>, Mode = state_Identity,
                     Backed = False\<rparr>]\<rparr>)]
     = (Inr [\<lparr>Resources = [''secrets''],
              Providers = [identityProvider, identityProvider,
                           aesgcmProvider \<lparr>Name = ''k1'', Secret = idKey\<rparr>]\<rparr>], [])
   \<and> ToEncryptionState toKeyState keyID idKey
       (Some [\<lparr>Resources = [''secrets''],
               Providers = [identityProvider, identityProvider,
                            aesgcmProvider \<lparr>Name = ''k1'', Secret = idKey\<rparr>]\<rparr>]) []
     = (([secretsGR \<mapsto>
            \<lparr>WriteKey = \<lparr>Key = \<lparr>Name = ''k1'', Secret = idKey\<rparr>, Mode = state_Identity,
                         Backed = False\<rparr>,
             ReadKeys = [\<lparr>Key = \<lparr>Name = ''k1'', Secret = idKey\<rparr>, Mode = state_Identity,
                          Backed = False\<rparr>]\<rparr>], []), [])"
proof -
  have 1: "stateToProviders
       \<lparr>WriteKey = zeroKeyState,
        ReadKeys = [\<lparr>Key = \<lparr>Name = ''k1'', Secret = idKey\<rparr>, Mode = state_Identity,
                     Backed = False\<rparr>]\<rparr>
     = (Inr [identityProvider, identityProvider,
             aesgcmProvider \<lparr>Name = ''k1'', Secret = idKey\<rparr>], [])"
    by (simp add: stateToProviders_def allKeys_def identityProvider_def)
  have 2: "ToEncryptionState toKeyState keyID idKey
       (Some [\<lparr>Resources = [''secrets''],
               Providers = [identityProvider, identityProvider,
                            aesgcmProvider \<lparr>Name = ''k1'', Secret = idKey\<rparr>]\<rparr>]) []
     = (([secretsGR \<mapsto>
            \<lparr>WriteKey = \<lparr>Key = \<lparr>Name = ''k1'', Secret = idKey\<rparr>, Mode = state_Identity,
                         Backed = False\<rparr>,
             ReadKeys = [\<lparr>Key = \<lparr>Name = ''k1'', Secret = idKey\<rparr>, Mode = state_Identity,
                          Backed = False\<rparr>]\<rparr>], []), [])"
    by (simp add: ToEncryptionState_single grStateOf_def writeKeyOf_def decodedKeys_def
        decodedKey_def switchProvider_simps SortRecentFirst_def ParseGroupResource_def
        firstIdentity_def)
  from 1 have "FromEncryptionState
     [(secretsGR,
       \<lparr>WriteKey = zeroKeyState,
        ReadKeys = [\<lparr>Key = \<lparr>Name = ''k1'', Secret = idKey\<rparr>, Mode = state_Identity,
                     Backed = False\<rparr>]\<rparr>)]
     = (Inr [\<lparr>Resources = [''secrets''],
              Providers = [identityProvider, identityProvider,
                           aesgcmProvider \<lparr>Name = ''k1'', Secret = idKey\<rparr>]\<rparr>], [])"
    by (simp add: FromEncryptionState_def GroupResource_String_def)
  with 2 show ?thesis by (intro conjI)
qed

theorem identity_read_key_scenario_witness:
  "FromEncryptionState [(secretsGR, \<lparr>WriteKey = zeroKeyState, ReadKeys = [scenarioKey]\<rparr>)]
     = (Inr [\<lparr>Resources = [''secrets''],
              Providers = [identityProvider, identityProvider,
                           aesgcmProvider (Key scenarioKey)]\<rparr>], [])
   \<and> ToEncryptionState sampleToKeyState sampleKeyID sentinel
       (Some [\<lparr>Resources = [''secrets''],
               Providers = [identityProvider, identityProvider,
                            aesgcmProvider (Key scenarioKey)]\<rparr>]) []
     = (([secretsGR \<mapsto> \<lparr>WriteKey = scenarioKey, ReadKeys = [scenarioKey]\<rparr>], []), [])"
  using identity_read_key_scenario [of sentinel sampleToKeyState sampleKeyID]
  by simp

end
